theory Spec2Isabelle
  imports Main
begin

section \<open>Runtime values and runtime types\<close>

text \<open>
  The evaluation core never interprets a backend value beyond looking at its
  runtime type. The model keeps one constructor per kind of Python value the
  core distinguishes: the primitive scalars of the tuple \<^verbatim>\<open>base\<close>
  (numbers, text, dates), the three containers and the lazy iterator named by
  \<^verbatim>\<open>issubtype\<close>, dictionaries, expressions themselves (a scope is a
  dictionary keyed by expressions, and \<^verbatim>\<open>compute_down\<close> may hand an
  expression back as the result), and opaque backend objects identified by the
  name of their class.
\<close>

type_synonym dshape = string

text \<open>
  Modelled from the spec: the expression tree (package \<^verbatim>\<open>blaze.expr\<close>) is an
  external collaborator. A node has a display name, a shape, and an ordered list
  of inputs; a \<open>Symbol\<close> is a leaf with a name, a shape, a disambiguating token
  (none by default) and, in the interactive form, attached concrete data.
\<close>

datatype 'd expr =
    Symbol string dshape "nat option" "'d option"
  | Op string string dshape "'d expr list"

datatype pyval =
    VNone
  | VBool bool
  | VInt int
  | VFloat nat
  | VStr string
  | VDate nat
  | VDatetime nat
  | VList "pyval list"
  | VTuple "pyval list"
  | VSet "pyval list"
  | VIter "pyval list"
  | VDict "(pyval \<times> pyval) list"
  | VExpr "pyval expr"
  | VObj string nat

datatype pytype =
    NoneType | TBool | TInt | TFloat | TStr | TDate | TDatetime
  | TList | TTuple | TSet | TIterator | TDict | TExpr | TObject string

fun py_type :: "pyval \<Rightarrow> pytype" where
  "py_type VNone = NoneType"
| "py_type (VBool _) = TBool"
| "py_type (VInt _) = TInt"
| "py_type (VFloat _) = TFloat"
| "py_type (VStr _) = TStr"
| "py_type (VDate _) = TDate"
| "py_type (VDatetime _) = TDatetime"
| "py_type (VList _) = TList"
| "py_type (VTuple _) = TTuple"
| "py_type (VSet _) = TSet"
| "py_type (VIter _) = TIterator"
| "py_type (VDict _) = TDict"
| "py_type (VExpr _) = TExpr"
| "py_type (VObj c _) = TObject c"

subsection \<open>Class tests\<close>

text \<open>
  \<^verbatim>\<open>issubclass(a, b)\<close> on the runtime types above: every class is a subclass
  of itself, \<^verbatim>\<open>bool\<close> derives from \<^verbatim>\<open>int\<close> and
  \<^verbatim>\<open>datetime\<close> from \<^verbatim>\<open>date\<close>. Opaque backend classes are
  unrelated to every other class.
\<close>

definition issubclass :: "pytype \<Rightarrow> pytype \<Rightarrow> bool" where
  "issubclass a b = (a = b \<or> (a = TBool \<and> b = TInt) \<or> (a = TDatetime \<and> b = TDate))"

text \<open>\<^verbatim>\<open>base = (numbers.Real, basestring, date, datetime)\<close>\<close>

definition isinstance_base :: "pyval \<Rightarrow> bool" where
  "isinstance_base x =
     (py_type x = TInt \<or> py_type x = TBool \<or> py_type x = TFloat \<or> py_type x = TStr
      \<or> py_type x = TDate \<or> py_type x = TDatetime)"

text \<open>\<^verbatim>\<open>issubclass(a, (tuple, list, set))\<close> and \<^verbatim>\<open>issubclass(a, Iterator)\<close>\<close>

definition is_container :: "pytype \<Rightarrow> bool" where
  "is_container a = (a = TTuple \<or> a = TList \<or> a = TSet)"

definition is_Iterator :: "pytype \<Rightarrow> bool" where
  "is_Iterator a = (a = TIterator)"

definition issubtype :: "pytype \<Rightarrow> pytype \<Rightarrow> bool" where
  "issubtype a b =
     (if issubclass a b then True
      else if is_container a \<and> is_Iterator b then True
      else if is_container b \<and> is_Iterator a then True
      else False)"

definition type_change :: "pyval list \<Rightarrow> pyval list \<Rightarrow> bool" where
  "type_change old new =
     (if list_all isinstance_base (old @ new) then False
      else if length old \<noteq> length new then True
      else let new_types = map py_type new;
               old_types = map py_type old
           in \<not> list_all (\<lambda>(a, b). issubtype a b) (zip new_types old_types))"

text \<open>
  The detector as the specification words it: both value lists are first put
  into a canonical order of their types (\<open>key\<close>), then compared pairwise.
\<close>

definition type_change_spec :: "(pytype \<Rightarrow> nat) \<Rightarrow> pyval list \<Rightarrow> pyval list \<Rightarrow> bool" where
  "type_change_spec key old new =
     (if list_all isinstance_base (old @ new) then False
      else if length old \<noteq> length new then True
      else \<not> list_all (\<lambda>(a, b). issubtype a b)
             (zip (map py_type (sort_key (key \<circ> py_type) new))
                  (map py_type (sort_key (key \<circ> py_type) old))))"

section \<open>Dictionaries\<close>

text \<open>
  A Python dictionary is an association list with one entry per key, in insertion
  order. \<open>map_of\<close> is the lookup; \<open>dict_setitem\<close> replaces the value of a key
  that is present and appends a new key otherwise.
\<close>

type_synonym scope = "(pyval \<times> pyval) list"

fun dict_setitem :: "('k \<times> 'v) list \<Rightarrow> 'k \<Rightarrow> 'v \<Rightarrow> ('k \<times> 'v) list" where
  "dict_setitem [] k v = [(k, v)]"
| "dict_setitem ((k', v') # d) k v =
     (if k' = k then (k, v) # d else (k', v') # dict_setitem d k v)"

text \<open>\<^verbatim>\<open>rv.update(d)\<close>\<close>

fun dict_update :: "('k \<times> 'v) list \<Rightarrow> ('k \<times> 'v) list \<Rightarrow> ('k \<times> 'v) list" where
  "dict_update rv [] = rv"
| "dict_update rv ((k, v) # d) = dict_update (dict_setitem rv k v) d"

text \<open>\<^verbatim>\<open>dict(pairs)\<close>\<close>

definition dict_of :: "('k \<times> 'v) list \<Rightarrow> ('k \<times> 'v) list" where
  "dict_of pairs = dict_update [] pairs"

text \<open>
  \<^verbatim>\<open>toolz.merge(dicts)\<close>: the dictionaries are poured, in order, into an
  empty one, so a later binding replaces an earlier one.
\<close>

fun merge_into :: "('k \<times> 'v) list \<Rightarrow> ('k \<times> 'v) list list \<Rightarrow> ('k \<times> 'v) list" where
  "merge_into rv [] = rv"
| "merge_into rv (d # ds) = merge_into (dict_update rv d) ds"

definition merge :: "('k \<times> 'v) list list \<Rightarrow> ('k \<times> 'v) list" where
  "merge dicts = merge_into [] dicts"

text \<open>\<^verbatim>\<open>d.get(k)\<close> never fails; \<^verbatim>\<open>d[k]\<close> raises \<^verbatim>\<open>KeyError\<close>.\<close>

definition dict_get :: "scope \<Rightarrow> pyval \<Rightarrow> pyval" where
  "dict_get d k = (case map_of d k of None \<Rightarrow> VNone | Some v \<Rightarrow> v)"

section \<open>Errors\<close>

text \<open>
  A registered handler either signals that it does not support its arguments
  (\<^verbatim>\<open>NotImplementedError\<close>, also what the dispatcher raises when no
  signature matches) or fails in some other way. The core itself raises the
  \<^verbatim>\<open>ValueError\<close> of the single-value form of \<^verbatim>\<open>compute\<close>
  (\<open>AmbiguousBinding\<close>), the \<^verbatim>\<open>ValueError\<close> of unpacking an empty
  \<^verbatim>\<open>zip\<close> into two names (\<open>UnpackError\<close>), and \<^verbatim>\<open>KeyError\<close>.
\<close>

datatype handler_error = NotImplementedError | HandlerFault string

datatype error = Raised handler_error | AmbiguousBinding | UnpackError | KeyError pyval

definition dict_getitem :: "scope \<Rightarrow> pyval \<Rightarrow> error + pyval" where
  "dict_getitem d k = (case map_of d k of None \<Rightarrow> Inl (KeyError k) | Some v \<Rightarrow> Inr v)"

text \<open>\<^verbatim>\<open>[d[k] for k in ks]\<close>: the first missing key ends the comprehension.\<close>

fun dict_getitems :: "scope \<Rightarrow> pyval list \<Rightarrow> error + pyval list" where
  "dict_getitems d [] = Inr []"
| "dict_getitems d (k # ks) =
     (case dict_getitem d k of
        Inl e \<Rightarrow> Inl e
      | Inr v \<Rightarrow> (case dict_getitems d ks of Inl e \<Rightarrow> Inl e | Inr vs \<Rightarrow> Inr (v # vs)))"

text \<open>
  \<^verbatim>\<open>dict((e, f(e, dat)) for e, dat in d.items())\<close> for a handler \<open>f\<close> that may
  raise: the first failure ends the construction.
\<close>

fun map_items :: "('k \<Rightarrow> 'v \<Rightarrow> handler_error + 'v) \<Rightarrow> ('k \<times> 'v) list
    \<Rightarrow> handler_error + ('k \<times> 'v) list" where
  "map_items f [] = Inr []"
| "map_items f ((k, v) # d) =
     (case f k v of
        Inl e \<Rightarrow> Inl e
      | Inr v' \<Rightarrow> (case map_items f d of Inl e \<Rightarrow> Inl e | Inr d' \<Rightarrow> Inr ((k, v') # d')))"

section \<open>Expression operations\<close>

text \<open>
  Modelled from the spec: the operations of the expression tree that the core
  consumes (display name, shape, direct inputs, leaf terminals, sub-nodes,
  substitution, attached resources). Structural identity is equality.
\<close>

fun expr_name :: "'d expr \<Rightarrow> string" where
  "expr_name (Symbol n s t r) = n"
| "expr_name (Op k n s ins) = n"

fun expr_dshape :: "'d expr \<Rightarrow> dshape" where
  "expr_dshape (Symbol n s t r) = s"
| "expr_dshape (Op k n s ins) = s"

fun expr_token :: "'d expr \<Rightarrow> nat option" where
  "expr_token (Symbol n s t r) = t"
| "expr_token (Op k n s ins) = None"

fun inputs :: "'d expr \<Rightarrow> 'd expr list" where
  "inputs (Symbol n s t r) = []"
| "inputs (Op k n s ins) = ins"

fun is_Symbol :: "'d expr \<Rightarrow> bool" where
  "is_Symbol (Symbol n s t r) = True"
| "is_Symbol (Op k n s ins) = False"

text \<open>\<^verbatim>\<open>toolz.unique\<close>: the first occurrence of every element, in order.\<close>

fun unique_from :: "'a list \<Rightarrow> 'a list \<Rightarrow> 'a list" where
  "unique_from seen [] = []"
| "unique_from seen (x # xs) =
     (if x \<in> set seen then unique_from seen xs else x # unique_from (x # seen) xs)"

definition unique :: "'a list \<Rightarrow> 'a list" where
  "unique xs = unique_from [] xs"

text \<open>
  Modelled from the spec: the leaves of a node are the terminal symbols reachable
  from it, each once, left to right; the subterms are the node and all nodes
  below it.
\<close>

fun leaves :: "'d expr \<Rightarrow> 'd expr list" where
  "leaves (Symbol n s t r) = [Symbol n s t r]"
| "leaves (Op k n s ins) = unique (concat (map leaves ins))"

fun subterms :: "'d expr \<Rightarrow> 'd expr list" where
  "subterms (Symbol n s t r) = [Symbol n s t r]"
| "subterms (Op k n s ins) = Op k n s ins # concat (map subterms ins)"

text \<open>
  Modelled from the spec: substitution returns a new tree in which every node
  that is a key of the dictionary is replaced by the node bound to it.
\<close>

fun subs :: "'d expr \<Rightarrow> ('d expr \<times> 'd expr) list \<Rightarrow> 'd expr" where
  "subs (Symbol n s t r) d =
     (case map_of d (Symbol n s t r) of Some e \<Rightarrow> e | None \<Rightarrow> Symbol n s t r)"
| "subs (Op k n s ins) d =
     (case map_of d (Op k n s ins) of
        Some e \<Rightarrow> e
      | None \<Rightarrow> Op k n s (map (\<lambda>i. subs i d) ins))"

text \<open>
  Modelled from the spec: \<^verbatim>\<open>_resources()\<close> maps every leaf that carries
  attached data to that data.
\<close>

fun resources :: "pyval expr \<Rightarrow> (pyval expr \<times> pyval) list" where
  "resources (Symbol n s t None) = []"
| "resources (Symbol n s t (Some data)) = [(Symbol n s t (Some data), data)]"
| "resources (Op k n s ins) = merge (map resources ins)"

section \<open>Leaf allocator\<close>

text \<open>
  The module-level state \<^verbatim>\<open>_leaf_cache\<close> (a dictionary) and
  \<^verbatim>\<open>_used_tokens\<close> (a set of name and token pairs) is passed explicitly.
\<close>

record leaf_state =
  leaf_cache :: "(pyval expr \<times> pyval expr) list"
  used_tokens :: "(string \<times> nat option) list"

definition reset_leaves :: "leaf_state \<Rightarrow> leaf_state" where
  "reset_leaves st = \<lparr>leaf_cache = [], used_tokens = []\<rparr>"

text \<open>
  \<^verbatim>\<open>for token in itertools.count(): if (name, token) not in _used_tokens: break\<close>,
  entered at \<open>token\<close>. The set is finite, so the scan ends.
\<close>

function next_token :: "(string \<times> nat option) list \<Rightarrow> string \<Rightarrow> nat \<Rightarrow> nat" where
  "next_token used name token =
     (if (name, Some token) \<in> set used then next_token used name (Suc token) else token)"
  by pat_completeness auto
termination
proof -
  have shrink: "length (filter Q xs) < length (filter P xs)"
    if "x \<in> set xs" and "P x" and "\<not> Q x" and "\<And>y. Q y \<Longrightarrow> P y"
    for P Q :: "string \<times> nat option \<Rightarrow> bool" and x xs
    using that
  proof (induction xs)
    case Nil
    then show ?case by simp
  next
    case (Cons a xs)
    have le: "length (filter Q xs) \<le> length (filter P xs)"
      using Cons.prems(4) by (induction xs) auto
    show ?case
    proof (cases "a = x")
      case True
      with Cons.prems le show ?thesis by simp
    next
      case False
      with Cons have "length (filter Q xs) < length (filter P xs)" by simp
      with Cons.prems(4) show ?thesis by auto
    qed
  qed
  show ?thesis
  proof (relation "measure (\<lambda>(used, name, token).
      length (filter (\<lambda>(nm, t). nm = name \<and> (case t of None \<Rightarrow> False | Some m \<Rightarrow> token \<le> m)) used))")
    show "wf (measure (\<lambda>(used, name, token).
      length (filter (\<lambda>(nm, t). nm = name \<and> (case t of None \<Rightarrow> False | Some m \<Rightarrow> token \<le> m)) used)))"
      by simp
  next
    fix used :: "(string \<times> nat option) list" and name :: string and token :: nat
    assume mem: "(name, Some token) \<in> set used"
    have "length (filter (\<lambda>(nm, t). nm = name \<and> (case t of None \<Rightarrow> False | Some m \<Rightarrow> Suc token \<le> m)) used)
        < length (filter (\<lambda>(nm, t). nm = name \<and> (case t of None \<Rightarrow> False | Some m \<Rightarrow> token \<le> m)) used)"
      by (rule shrink [OF mem]) (auto split: option.splits)
    then show "((used, name, Suc token), (used, name, token)) \<in> measure (\<lambda>(used, name, token).
      length (filter (\<lambda>(nm, t). nm = name \<and> (case t of None \<Rightarrow> False | Some m \<Rightarrow> token \<le> m)) used))"
      by simp
  qed
qed

declare next_token.simps [simp del]

text \<open>\<^verbatim>\<open>name = expr._name or '_'\<close>\<close>

definition leaf_name :: "pyval expr \<Rightarrow> string" where
  "leaf_name expr = (if expr_name expr = [] then ''_'' else expr_name expr)"

definition makeleaf :: "pyval expr \<Rightarrow> leaf_state \<Rightarrow> pyval expr \<times> leaf_state" where
  "makeleaf expr st =
     (let name = leaf_name expr in
      case map_of (leaf_cache st) expr of
        Some leaf \<Rightarrow> (leaf, st)
      | None \<Rightarrow>
          let token = (if (name, None) \<in> set (used_tokens st)
                       then Some (next_token (used_tokens st) name 0)
                       else None);
              result = Symbol name (expr_dshape expr) token None
          in (result,
              \<lparr>leaf_cache = dict_setitem (leaf_cache st) expr result,
               used_tokens = List.insert (name, token) (used_tokens st)\<rparr>))"

text \<open>The allocation requests of one evaluation, in order.\<close>

fun makeleaf_all :: "pyval expr list \<Rightarrow> leaf_state \<Rightarrow> pyval expr list \<times> leaf_state" where
  "makeleaf_all [] st = ([], st)"
| "makeleaf_all (e # es) st =
     (let (leaf, st') = makeleaf e st;
          (ls, st'') = makeleaf_all es st'
      in (leaf # ls, st''))"

section \<open>Dispatch registry and configuration\<close>

text \<open>
  The five dispatched operations are extension points: a backend registers
  handlers for them. The registry is a parameter of the core; \<open>type_key\<close> is
  the order of type objects that \<^verbatim>\<open>sorted(..., key=type)\<close> uses.
\<close>

type_synonym optimize_fn = "pyval expr \<Rightarrow> pyval list \<Rightarrow> handler_error + pyval expr"

type_synonym pre_compute_fn = "pyval \<Rightarrow> pyval \<Rightarrow> handler_error + pyval"

text \<open>
  A keyword argument is absent, or given with a falsy value (\<open>Given None\<close>),
  or given with a callable. \<^verbatim>\<open>kwargs.get(key, default)\<close> is \<open>kwarg_get\<close>.
\<close>

datatype 'f kwarg = Absent | Given "'f option"

fun kwarg_get :: "'f kwarg \<Rightarrow> 'f \<Rightarrow> 'f option" where
  "kwarg_get Absent dflt = Some dflt"
| "kwarg_get (Given x) dflt = x"

record kwargs =
  kw_optimize :: "optimize_fn kwarg"
  kw_pre_compute :: "pre_compute_fn kwarg"

definition no_kwargs :: kwargs where
  "no_kwargs = \<lparr>kw_optimize = Absent, kw_pre_compute = Absent\<rparr>"

fun kwarg_absent :: "'f kwarg \<Rightarrow> bool" where
  "kwarg_absent Absent = True"
| "kwarg_absent (Given x) = False"

record registry =
  compute_up_h :: "pyval expr \<Rightarrow> pyval list \<Rightarrow> scope \<Rightarrow> handler_error + pyval"
  compute_down_h :: "pyval expr \<Rightarrow> pyval list \<Rightarrow> kwargs \<Rightarrow> handler_error + pyval"
  optimize_h :: optimize_fn
  pre_compute_h :: "pyval \<Rightarrow> pyval \<Rightarrow> scope option \<Rightarrow> handler_error + pyval"
  post_compute_h :: "pyval expr \<Rightarrow> pyval \<Rightarrow> scope \<Rightarrow> handler_error + pyval"
  type_key :: "pytype \<Rightarrow> nat"

subsection \<open>The handlers this module registers\<close>

text \<open>
  \<^verbatim>\<open>@dispatch(Expr, object) def pre_compute(leaf, data, scope=None)\<close>: no
  signature matches a first argument that is not an expression.
\<close>

definition pre_compute :: "pyval \<Rightarrow> pyval \<Rightarrow> scope option \<Rightarrow> handler_error + pyval" where
  "pre_compute leaf data sc = (case leaf of VExpr e \<Rightarrow> Inr data | _ \<Rightarrow> Inl NotImplementedError)"

definition post_compute :: "pyval expr \<Rightarrow> pyval \<Rightarrow> scope \<Rightarrow> handler_error + pyval" where
  "post_compute expr result sc = Inr result"

text \<open>
  \<^verbatim>\<open>@dispatch(Expr, object) def optimize(expr, data)\<close>: the signature matches
  one data argument only.
\<close>

definition optimize :: optimize_fn where
  "optimize expr data = (case data of [d] \<Rightarrow> Inr expr | _ \<Rightarrow> Inl NotImplementedError)"

text \<open>
  \<^verbatim>\<open>compute_up\<close> on an expression: the signature \<^verbatim>\<open>(object, object)\<close>
  raises, and the two other signatures (a primitive scalar, a list or tuple) take
  a single argument that is not an expression.
\<close>

definition compute_up :: "pyval expr \<Rightarrow> pyval list \<Rightarrow> scope \<Rightarrow> handler_error + pyval" where
  "compute_up a bs sc = Inl NotImplementedError"

text \<open>
  \<^verbatim>\<open>@dispatch(object) def compute_down(expr)\<close>: the signature matches no data
  argument, and the function takes no keyword argument.
\<close>

definition compute_down :: "pyval expr \<Rightarrow> pyval list \<Rightarrow> kwargs \<Rightarrow> handler_error + pyval" where
  "compute_down expr data kw =
     (if data \<noteq> [] then Inl NotImplementedError
      else if kwarg_absent (kw_optimize kw) \<and> kwarg_absent (kw_pre_compute kw) then Inr (VExpr expr)
      else Inl (HandlerFault ''TypeError''))"

definition module_registry :: "(pytype \<Rightarrow> nat) \<Rightarrow> registry" where
  "module_registry key =
     \<lparr>compute_up_h = compute_up, compute_down_h = compute_down, optimize_h = optimize,
      pre_compute_h = pre_compute, post_compute_h = post_compute, type_key = key\<rparr>"

text \<open>
  \<^verbatim>\<open>sorted(values, key=type)\<close>, a stable sort on the order of the type
  objects (Python 2 orders them; the order is a parameter of the model).
\<close>

definition sorted_by_type :: "registry \<Rightarrow> pyval list \<Rightarrow> pyval list" where
  "sorted_by_type rt vals = sort_key (type_key rt \<circ> py_type) vals"

section \<open>Bottom-up partial evaluator\<close>

fun esize :: "'d expr \<Rightarrow> nat" where
  "esize (Symbol n s t r) = 1"
| "esize (Op k n s ins) = Suc (sum_list (map esize ins))"

text \<open>
  \<open>bottom_up_inputs\<close> is the list comprehension over the distinct inputs: the
  recursive calls run left to right on the allocator state, and the first
  exception ends the comprehension. Unpacking \<^verbatim>\<open>zip(*[])\<close> into two names
  raises \<^verbatim>\<open>ValueError\<close>.
\<close>

function bottom_up_until_type_break ::
    "registry \<Rightarrow> pyval expr \<Rightarrow> scope \<Rightarrow> leaf_state
      \<Rightarrow> error + ((pyval expr \<times> scope) \<times> leaf_state)"
  and bottom_up_inputs ::
    "registry \<Rightarrow> pyval expr list \<Rightarrow> scope \<Rightarrow> leaf_state
      \<Rightarrow> error + ((pyval expr \<times> scope) list \<times> leaf_state)" where
  "bottom_up_until_type_break rt expr sc st =
     (case map_of sc (VExpr expr) of
        Some v \<Rightarrow>
          (let (leaf, st') = makeleaf expr st in Inr ((leaf, [(VExpr leaf, v)]), st'))
      | None \<Rightarrow>
          (let ins = unique (inputs expr) in
           case bottom_up_inputs rt ins sc st of
             Inl e \<Rightarrow> Inl e
           | Inr (results, st1) \<Rightarrow>
               if results = [] then Inl UnpackError
               else
                 let exprs = map fst results;
                     new_scopes = map snd results;
                     new_scope = merge new_scopes;
                     new_expr = subs expr (dict_of (filter (\<lambda>(i, e). i \<noteq> e) (zip ins exprs)));
                     old_expr_leaves = leaves expr;
                     old_data_leaves = map (\<lambda>leaf. dict_get sc (VExpr leaf)) old_expr_leaves
                 in if type_change (sorted_by_type rt (map snd new_scope))
                                   (sorted_by_type rt old_data_leaves)
                    then Inr ((new_expr, new_scope), st1)
                    else
                      let (leaf, st2) = makeleaf expr st1 in
                      case dict_getitems new_scope (map VExpr (inputs new_expr)) of
                        Inl e \<Rightarrow> Inl e
                      | Inr data \<Rightarrow>
                          (case compute_up_h rt new_expr data new_scope of
                             Inl e \<Rightarrow> Inl (Raised e)
                           | Inr v \<Rightarrow> Inr ((leaf, [(VExpr leaf, v)]), st2))))"
| "bottom_up_inputs rt [] sc st = Inr ([], st)"
| "bottom_up_inputs rt (i # is) sc st =
     (case bottom_up_until_type_break rt i sc st of
        Inl e \<Rightarrow> Inl e
      | Inr (r, st') \<Rightarrow>
          (case bottom_up_inputs rt is sc st' of
             Inl e \<Rightarrow> Inl e
           | Inr (rs, st'') \<Rightarrow> Inr (r # rs, st'')))"
  by pat_completeness auto
termination
proof -
  have dup: "sum_list (map esize (unique_from seen xs)) \<le> sum_list (map esize xs)"
    for seen xs :: "pyval expr list"
    by (induction xs arbitrary: seen) (auto intro: le_SucI trans_le_add2)
  have pos: "0 < esize e" for e :: "pyval expr"
    by (cases e) simp_all
  have below: "Suc (2 * sum_list (map esize (unique (inputs e)))) < 2 * esize e"
    for e :: "pyval expr"
  proof (cases e)
    case (Symbol n s t r)
    then show ?thesis by (simp add: unique_def)
  next
    case (Op k n s ins)
    then show ?thesis
      using dup [of "[]" ins] by (simp add: unique_def)
  qed
  show ?thesis
    by (relation "measure (\<lambda>x. case x of
          Inl (rt, e, sc, st) \<Rightarrow> 2 * esize e
        | Inr (rt, es, sc, st) \<Rightarrow> 2 * sum_list (map esize es) + 1)")
       (simp_all add: pos below)
qed

declare bottom_up_until_type_break.simps [simp del]

section \<open>Fixpoint driver\<close>

text \<open>
  \<^verbatim>\<open>try: e2 = optimize_(e, *vals)  except NotImplementedError: e2 = e\<close>
\<close>

definition try_optimize :: "optimize_fn \<Rightarrow> pyval expr \<Rightarrow> pyval list \<Rightarrow> error + pyval expr" where
  "try_optimize f e vals =
     (case f e vals of
        Inr e2 \<Rightarrow> Inr e2
      | Inl NotImplementedError \<Rightarrow> Inr e
      | Inl (HandlerFault m) \<Rightarrow> Inl (Raised (HandlerFault m)))"

text \<open>
  The block \<^verbatim>\<open># Re-optimize data and expressions\<close> of the driver. The
  keyword argument \<^verbatim>\<open>pre_compute\<close> only gates the step: the values go
  through the dispatched \<^verbatim>\<open>pre_compute\<close>.
\<close>

definition loop_pre_compute :: "registry \<Rightarrow> kwargs \<Rightarrow> pyval expr \<Rightarrow> scope \<Rightarrow> error + scope" where
  "loop_pre_compute rt kw new_expr new_scope =
     (case kwarg_get (kw_pre_compute kw) (\<lambda>e d. pre_compute_h rt e d None) of
        Some pre_compute_' \<Rightarrow>
          (case map_items (\<lambda>e datum. pre_compute_h rt (VExpr new_expr) datum (Some new_scope)) new_scope of
             Inl e \<Rightarrow> Inl (Raised e)
           | Inr new_scope2 \<Rightarrow> Inr (dict_of new_scope2))
      | None \<Rightarrow> Inr new_scope)"

definition loop_optimize :: "registry \<Rightarrow> kwargs \<Rightarrow> pyval expr \<Rightarrow> scope \<Rightarrow> error + pyval expr" where
  "loop_optimize rt kw new_expr new_scope2 =
     (case kwarg_get (kw_optimize kw) (optimize_h rt) of
        Some optimize_' \<Rightarrow>
          (case dict_getitems new_scope2 (map VExpr (leaves new_expr)) of
             Inl e \<Rightarrow> Inl e
           | Inr vals \<Rightarrow> try_optimize optimize_' new_expr vals)
      | None \<Rightarrow> Inr new_expr)"

text \<open>
  The recursion has no bound in the source; the first argument counts the rounds
  left, and \<open>None\<close> is a run that needs more. Every expression of the model has
  the attribute \<^verbatim>\<open>_leaves\<close>, so the test for it never fires. The recursive
  call passes no keyword argument.
\<close>

fun top_then_bottom_then_top_again_etc ::
    "nat \<Rightarrow> registry \<Rightarrow> kwargs \<Rightarrow> pyval expr \<Rightarrow> scope \<Rightarrow> leaf_state \<Rightarrow> (error + pyval) option" where
  "top_then_bottom_then_top_again_etc 0 rt kw expr sc st = None"
| "top_then_bottom_then_top_again_etc (Suc n) rt kw expr sc st =
     (case map_of sc (VExpr expr) of
        Some v \<Rightarrow> Some (Inr v)
      | None \<Rightarrow>
          (let leaf_exprs = leaves expr;
               leaf_data = map (\<lambda>leaf. dict_get sc (VExpr leaf)) leaf_exprs
           in case compute_down_h rt expr leaf_data kw of
                Inr v \<Rightarrow> Some (Inr v)
              | Inl (HandlerFault m) \<Rightarrow> Some (Inl (Raised (HandlerFault m)))
              | Inl NotImplementedError \<Rightarrow>
                  (case bottom_up_until_type_break rt expr sc st of
                     Inl e \<Rightarrow> Some (Inl e)
                   | Inr ((new_expr, new_scope), st') \<Rightarrow>
                       (case loop_pre_compute rt kw new_expr new_scope of
                          Inl e \<Rightarrow> Some (Inl e)
                        | Inr new_scope2 \<Rightarrow>
                            (case loop_optimize rt kw new_expr new_scope2 of
                               Inl e \<Rightarrow> Some (Inl e)
                             | Inr new_expr2 \<Rightarrow>
                                 top_then_bottom_then_top_again_etc n rt no_kwargs
                                   new_expr2 new_scope2 st')))))"

section \<open>Resource binder\<close>

definition swap_resources_into_scope :: "pyval expr \<Rightarrow> scope \<Rightarrow> pyval expr \<times> scope" where
  "swap_resources_into_scope expr sc =
     (let resources0 = resources expr;
          symbol_dict = dict_of (map (\<lambda>t. (t, Symbol (expr_name t) (expr_dshape t) None None))
                                     (map fst resources0));
          resources1 = dict_of (map (\<lambda>(k, v). (VExpr (the (map_of symbol_dict k)), v)) resources0);
          sc' = merge [resources1, sc];
          expr' = subs expr symbol_dict
      in (expr', sc'))"

section \<open>Evaluation entry point\<close>

text \<open>
  Modelled from the spec: \<^verbatim>\<open>e in expr2\<close> holds for the keys the expression
  references, its sub-nodes.
\<close>

definition expr_contains :: "pyval expr \<Rightarrow> pyval \<Rightarrow> bool" where
  "expr_contains expr k = (case k of VExpr e \<Rightarrow> e \<in> set (subterms expr) | _ \<Rightarrow> False)"

definition entry_pre_compute :: "registry \<Rightarrow> kwargs \<Rightarrow> scope \<Rightarrow> error + scope" where
  "entry_pre_compute rt kw d2 =
     (case kwarg_get (kw_pre_compute kw) (\<lambda>e d. pre_compute_h rt e d None) of
        Some pre_compute_' \<Rightarrow>
          (case map_items pre_compute_' d2 of
             Inl e \<Rightarrow> Inl (Raised e)
           | Inr d3 \<Rightarrow> Inr (dict_of d3))
      | None \<Rightarrow> Inr d2)"

definition entry_optimize :: "registry \<Rightarrow> kwargs \<Rightarrow> pyval expr \<Rightarrow> scope \<Rightarrow> error + pyval expr" where
  "entry_optimize rt kw expr2 d3 =
     (case kwarg_get (kw_optimize kw) (optimize_h rt) of
        Some optimize_' \<Rightarrow>
          try_optimize optimize_' expr2 (map snd (filter (\<lambda>(e, v). expr_contains expr2 e) d3))
      | None \<Rightarrow> Inr expr2)"

text \<open>\<^verbatim>\<open>@dispatch(Expr, dict) def compute(expr, d, **kwargs)\<close>\<close>

definition compute_Expr_dict ::
    "nat \<Rightarrow> registry \<Rightarrow> kwargs \<Rightarrow> pyval expr \<Rightarrow> scope \<Rightarrow> leaf_state \<Rightarrow> (error + pyval) option" where
  "compute_Expr_dict n rt kw expr d st =
     (let st0 = reset_leaves st;
          (expr2, d2) = swap_resources_into_scope expr d
      in case entry_pre_compute rt kw d2 of
           Inl e \<Rightarrow> Some (Inl e)
         | Inr d3 \<Rightarrow>
             (case entry_optimize rt kw expr2 d3 of
                Inl e \<Rightarrow> Some (Inl e)
              | Inr expr3 \<Rightarrow>
                  (case top_then_bottom_then_top_again_etc n rt kw expr3 d3 st0 of
                     None \<Rightarrow> None
                   | Some (Inl e) \<Rightarrow> Some (Inl e)
                   | Some (Inr result) \<Rightarrow>
                       (case post_compute_h rt expr3 result d3 of
                          Inl e \<Rightarrow> Some (Inl (Raised e))
                        | Inr v \<Rightarrow> Some (Inr v)))))"

text \<open>
  \<^verbatim>\<open>@dispatch(Expr, object) def compute(expr, o, **kwargs)\<close>; the set
  \<^verbatim>\<open>ts\<close> is kept as the list of its distinct elements.
\<close>

definition compute_Expr_object ::
    "nat \<Rightarrow> registry \<Rightarrow> kwargs \<Rightarrow> pyval expr \<Rightarrow> pyval \<Rightarrow> leaf_state \<Rightarrow> (error + pyval) option" where
  "compute_Expr_object n rt kw expr obj st =
     (let ts = unique (filter is_Symbol (subterms expr)) in
      if length ts = 1 then compute_Expr_dict n rt kw expr [(VExpr (hd ts), obj)] st
      else Some (Inl AmbiguousBinding))"

text \<open>
  The dispatcher picks the most specific signature: a dictionary as second
  argument goes to the mapping form, every other object to the single-value form.
\<close>

definition compute :: "nat \<Rightarrow> registry \<Rightarrow> kwargs \<Rightarrow> pyval expr \<Rightarrow> pyval \<Rightarrow> leaf_state \<Rightarrow> (error + pyval) option" where
  "compute n rt kw expr obj st =
     (case obj of
        VDict d \<Rightarrow> compute_Expr_dict n rt kw expr d st
      | _ \<Rightarrow> compute_Expr_object n rt kw expr obj st)"

section \<open>Notions used in the statements\<close>

text \<open>
  The invariant of the allocator state: every cached leaf is a plain symbol named
  after its source expression whose name and token are recorded as used, and two
  cached leaves of different source expressions differ in name or token.
\<close>

definition leaf_inv :: "leaf_state \<Rightarrow> bool" where
  "leaf_inv st =
     ((\<forall>e s. map_of (leaf_cache st) e = Some s \<longrightarrow>
          s = Symbol (leaf_name e) (expr_dshape e) (expr_token s) None
          \<and> (leaf_name e, expr_token s) \<in> set (used_tokens st))
      \<and> (\<forall>e1 e2 s1 s2. map_of (leaf_cache st) e1 = Some s1 \<and> map_of (leaf_cache st) e2 = Some s2
            \<and> e1 \<noteq> e2 \<longrightarrow> (expr_name s1, expr_token s1) \<noteq> (expr_name s2, expr_token s2)))"


text \<open>
  A leaf that carries attached data, the plain symbol that replaces it, and the
  replacement as the specification words it: every data-carrying leaf gives way
  to a plain symbol of the same name and shape.
\<close>

fun is_resource :: "'d expr \<Rightarrow> bool" where
  "is_resource (Symbol n s t (Some d)) = True"
| "is_resource (Symbol n s t None) = False"
| "is_resource (Op k n s ins) = False"

definition plain_symbol :: "pyval expr \<Rightarrow> pyval expr" where
  "plain_symbol t = Symbol (expr_name t) (expr_dshape t) None None"

fun replace_resources_spec :: "pyval expr \<Rightarrow> pyval expr" where
  "replace_resources_spec (Symbol n s t None) = Symbol n s t None"
| "replace_resources_spec (Symbol n s t (Some d)) = Symbol n s None None"
| "replace_resources_spec (Op k n s ins) = Op k n s (map replace_resources_spec ins)"

section \<open>Concrete data for the examples\<close>

text \<open>A concrete order of the type objects, and the allocator state after a reset.\<close>

definition type_rank :: "pytype \<Rightarrow> nat" where
  "type_rank t =
     (case t of
        NoneType \<Rightarrow> 0 | TBool \<Rightarrow> 1 | TInt \<Rightarrow> 2 | TFloat \<Rightarrow> 3 | TStr \<Rightarrow> 4 | TDate \<Rightarrow> 5
      | TDatetime \<Rightarrow> 6 | TList \<Rightarrow> 7 | TTuple \<Rightarrow> 8 | TSet \<Rightarrow> 9 | TIterator \<Rightarrow> 10
      | TDict \<Rightarrow> 11 | TExpr \<Rightarrow> 12 | TObject c \<Rightarrow> 13 + length c)"

definition empty_leaves :: leaf_state where
  "empty_leaves = \<lparr>leaf_cache = [], used_tokens = []\<rparr>"

text \<open>Expressions of the docstring of \<open>makeleaf\<close>: \<open>t\<close>, \<open>t.x\<close> and \<open>t.x + 1\<close>.\<close>

definition ex_t :: "pyval expr" where
  "ex_t = Symbol ''t'' ''{x: int, y: int, z: int}'' None None"

definition ex_tx :: "pyval expr" where
  "ex_tx = Op ''Field'' ''x'' ''int'' [ex_t]"

definition ex_tx1 :: "pyval expr" where
  "ex_tx1 = Op ''Add'' ''x'' ''int'' [ex_tx]"

text \<open>
  The expressions \<open>s\<close>, \<open>s.amount\<close> and \<open>s.amount.sum()\<close> of the docstring
  of \<open>bottom_up_until_type_break\<close>.
\<close>

definition ex_s :: "pyval expr" where
  "ex_s = Symbol ''s'' ''var * {amount: int}'' None None"

definition ex_g :: "pyval expr" where
  "ex_g = Op ''Field'' ''amount'' ''var * int'' [ex_s]"

definition ex_fg :: "pyval expr" where
  "ex_fg = Op ''Sum'' ''amount_sum'' ''int'' [ex_g]"

text \<open>
  A registry with a backend: \<^verbatim>\<open>compute_up\<close> handlers for a sum (of a table
  column, here always \<open>600\<close>), a range (a list) and a distinct (the operand
  itself); and the same registry with an optimizer that supports nothing.
\<close>

fun expr_kind :: "'d expr \<Rightarrow> string" where
  "expr_kind (Symbol n s t r) = ''Symbol''"
| "expr_kind (Op k n s ins) = k"

definition ex_compute_up :: "pyval expr \<Rightarrow> pyval list \<Rightarrow> scope \<Rightarrow> handler_error + pyval" where
  "ex_compute_up e vs sc =
     (if expr_kind e = ''Sum'' then Inr (VInt 600)
      else if expr_kind e = ''Range'' then Inr (VList [VInt 0])
      else if expr_kind e = ''Distinct'' then (case vs of [v] \<Rightarrow> Inr v | _ \<Rightarrow> Inl NotImplementedError)
      else Inl NotImplementedError)"

definition ex_registry :: registry where
  "ex_registry = (module_registry type_rank)\<lparr>compute_up_h := ex_compute_up\<rparr>"

definition ex_registry_unsupported :: registry where
  "ex_registry_unsupported = ex_registry\<lparr>optimize_h := (\<lambda>e vals. Inl NotImplementedError)\<rparr>"

text \<open>
  The registry with a \<^verbatim>\<open>compute_down\<close> handler that takes a whole expression
  whose single leaf has no data.
\<close>

definition ex_registry_down :: registry where
  "ex_registry_down = ex_registry\<lparr>compute_down_h :=
     (\<lambda>e data kw. if data = [VNone] then Inr (VStr ''whole'') else Inl NotImplementedError)\<rparr>"

text \<open>
  Symbols \<open>x\<close>, \<open>a\<close>, \<open>b\<close>; the expression \<open>Pair(Neg(Sum(a)), Range(b))\<close>; the
  expression \<open>Distinct(x)\<close>; a \<^verbatim>\<open>pre_compute\<close> override that wraps a value into
  a list; and an expression without symbols.
\<close>

definition ex_x :: "pyval expr" where
  "ex_x = Symbol ''x'' ''int'' None None"

definition ex_a :: "pyval expr" where
  "ex_a = Symbol ''a'' ''var * int'' None None"

definition ex_b :: "pyval expr" where
  "ex_b = Symbol ''b'' ''int'' None None"

definition ex_pair :: "pyval expr" where
  "ex_pair = Op ''Pair'' ''p'' ''var * int''
     [Op ''Neg'' ''n'' ''int'' [Op ''Sum'' ''a_sum'' ''int'' [ex_a]],
      Op ''Range'' ''r'' ''var * int'' [ex_b]]"

definition ex_distinct :: "pyval expr" where
  "ex_distinct = Op ''Distinct'' ''y'' ''int'' [ex_x]"

definition ex_wrap :: pre_compute_fn where
  "ex_wrap e v = Inr (VList [v])"


text \<open>
  The interactive leaf of the docstring of \<open>swap_resources_into_scope\<close>, and a
  second one of the same name and shape over other data.
\<close>

definition ex_t1 :: "pyval expr" where
  "ex_t1 = Symbol ''t'' ''3 * int'' None (Some (VList [VInt 1, VInt 2, VInt 3]))"

definition ex_t2 :: "pyval expr" where
  "ex_t2 = Symbol ''t'' ''3 * int'' None (Some (VList [VInt 4, VInt 5, VInt 6]))"

definition ex_head :: "pyval expr" where
  "ex_head = Op ''Head'' ''t'' ''2 * int'' [ex_t1]"

definition ex_add :: "pyval expr" where
  "ex_add = Op ''Add'' ''t'' ''3 * int'' [ex_t1, ex_t2]"

section \<open>Evaluation of concrete inputs\<close>

lemmas eval_defs =
  Let_def unique_def merge_def dict_of_def dict_get_def dict_getitem_def sorted_by_type_def
  module_registry_def makeleaf_def leaf_name_def empty_leaves_def reset_leaves_def
  type_change_def isinstance_base_def issubtype_def issubclass_def is_container_def
  is_Iterator_def type_rank_def bottom_up_until_type_break.simps next_token.simps
  no_kwargs_def pre_compute_def post_compute_def optimize_def compute_up_def compute_down_def
  try_optimize_def loop_pre_compute_def loop_optimize_def swap_resources_into_scope_def
  expr_contains_def entry_pre_compute_def entry_optimize_def compute_Expr_dict_def
  compute_Expr_object_def compute_def

section \<open>The type-break detector\<close>

lemma list_all_zip_nth:
  "length xs = length ys \<Longrightarrow>
   list_all (\<lambda>(a, b). P a b) (zip xs ys) = (\<forall>i < length xs. P (xs ! i) (ys ! i))"
  by (induction xs ys rule: list_induct2) (auto simp: less_Suc_eq_0_disj)

lemma list_all_sort_key: "list_all P (sort_key f xs) = list_all P xs"
  by (simp add: list_all_iff)

text \<open>
  C2, as stated, fails: \<open>type_change\<close> does not reorder its arguments. On the
  lists \<open>[1, [2]]\<close> and \<open>[[2], 1]\<close> it compares \<open>list\<close> with \<open>int\<close> and
  reports a break, where the comparison after ordering both lists by type
  reports none.
\<close>

theorem type_change_counterexample:
  "type_change [VInt 1, VList [VInt 2]] [VList [VInt 2], VInt 1]
   \<noteq> type_change_spec type_rank [VInt 1, VList [VInt 2]] [VList [VInt 2], VInt 1]"
  by (simp add: type_change_def type_change_spec_def isinstance_base_def issubtype_def
      issubclass_def is_container_def is_Iterator_def type_rank_def)

text \<open>
  C2, amended: \<open>type_change old new\<close> is false when every value of both lists
  is a primitive scalar, whatever the lengths; true when the lists, not all
  primitive, differ in length; and otherwise true exactly when at some position
  the type of the new value is not compatible with the type of the old value at
  the same position, in the order the lists are given. A type is compatible with
  another if it is a subclass of it, or one of the two is a list, tuple or set and
  the other an iterator. The ordering by type is done by the caller
  \<open>bottom_up_until_type_break\<close>, which sorts both lists before the call; that
  composition is the comparison the specification describes. The three examples
  hold.
\<close>

theorem type_change_positional:
  "(list_all isinstance_base (old @ new) \<longrightarrow> \<not> type_change old new)
   \<and> (\<not> list_all isinstance_base (old @ new) \<and> length old \<noteq> length new \<longrightarrow> type_change old new)
   \<and> (\<not> list_all isinstance_base (old @ new) \<and> length old = length new \<longrightarrow>
        type_change old new
          = (\<exists>i < length new. \<not> issubtype (py_type (new ! i)) (py_type (old ! i))))
   \<and> issubtype a b
        = (issubclass a b \<or> (is_container a \<and> is_Iterator b) \<or> (is_container b \<and> is_Iterator a))
   \<and> type_change (sorted_by_type rt old) (sorted_by_type rt new)
        = type_change_spec (type_key rt) old new
   \<and> \<not> type_change [VInt 1, VInt 2] [VInt 3, VInt 4]
   \<and> type_change [VInt 1, VInt 2] [VInt 3, VList [VInt 1, VInt 2, VInt 3]]
   \<and> \<not> type_change [VList [VInt 1, VInt 2]] [VIter [VInt 1, VInt 2]]"
proof -
  have b1: "list_all isinstance_base (old @ new) \<longrightarrow> \<not> type_change old new"
    by (simp add: type_change_def)
  have b2: "\<not> list_all isinstance_base (old @ new) \<and> length old \<noteq> length new
      \<longrightarrow> type_change old new"
    by (simp add: type_change_def)
  have pos: "\<not> list_all isinstance_base (old @ new) \<and> length old = length new \<longrightarrow>
        type_change old new
          = (\<exists>i < length new. \<not> issubtype (py_type (new ! i)) (py_type (old ! i)))"
    using list_all_zip_nth [of "map py_type new" "map py_type old" issubtype]
    by (auto simp: type_change_def)
  have sub: "issubtype a b
        = (issubclass a b \<or> (is_container a \<and> is_Iterator b) \<or> (is_container b \<and> is_Iterator a))"
    by (simp add: issubtype_def)
  have srt: "type_change (sorted_by_type rt old) (sorted_by_type rt new)
        = type_change_spec (type_key rt) old new"
    by (simp add: type_change_def type_change_spec_def sorted_by_type_def list_all_sort_key)
  have ex: "\<not> type_change [VInt 1, VInt 2] [VInt 3, VInt 4]"
    "type_change [VInt 1, VInt 2] [VInt 3, VList [VInt 1, VInt 2, VInt 3]]"
    "\<not> type_change [VList [VInt 1, VInt 2]] [VIter [VInt 1, VInt 2]]"
    by (simp_all add: type_change_def isinstance_base_def issubtype_def
      issubclass_def is_container_def is_Iterator_def)
  from b1 b2 pos sub srt ex show ?thesis
    by blast
qed

theorem type_change_positional_witness:
  "\<not> list_all isinstance_base ([VInt 1, VList [VInt 2]] @ [VList [VInt 2], VInt 1])
   \<and> length [VInt 1, VList [VInt 2]] = length [VList [VInt 2], VInt 1]
   \<and> type_change [VInt 1, VList [VInt 2]] [VList [VInt 2], VInt 1]
   \<and> (\<exists>i < length [VList [VInt 2], VInt 1].
        \<not> issubtype (py_type ([VList [VInt 2], VInt 1] ! i)) (py_type ([VInt 1, VList [VInt 2]] ! i)))"
proof -
  have h: "\<not> list_all isinstance_base ([VInt 1, VList [VInt 2]] @ [VList [VInt 2], VInt 1])
      \<and> length [VInt 1, VList [VInt 2]] = length [VList [VInt 2], VInt 1]"
    by (simp add: isinstance_base_def)
  have c: "type_change [VInt 1, VList [VInt 2]] [VList [VInt 2], VInt 1]"
    by (simp add: type_change_def isinstance_base_def issubtype_def issubclass_def
        is_container_def is_Iterator_def)
  from type_change_positional [of "[VInt 1, VList [VInt 2]]" "[VList [VInt 2], VInt 1]"] h c
  show ?thesis
    by blast
qed

section \<open>The leaf allocator\<close>

lemma map_of_dict_setitem: "map_of (dict_setitem d k v) = (map_of d)(k \<mapsto> v)"
  by (induction d) auto

lemma next_token_fresh: "(name, Some (next_token used name n)) \<notin> set used"
proof (induction used name n rule: next_token.induct)
  case (1 used name token)
  then show ?case
    by (subst next_token.simps) simp
qed

lemma leaf_inv_reset: "leaf_inv (reset_leaves st)"
  by (simp add: leaf_inv_def reset_leaves_def)

lemma makeleaf_hit:
  "map_of (leaf_cache st) e = Some s \<Longrightarrow> makeleaf e st = (s, st)"
  by (simp add: makeleaf_def)

lemma makeleaf_miss:
  assumes "map_of (leaf_cache st) e = None"
  obtains tok where
    "makeleaf e st =
       (Symbol (leaf_name e) (expr_dshape e) tok None,
        \<lparr>leaf_cache = dict_setitem (leaf_cache st) e (Symbol (leaf_name e) (expr_dshape e) tok None),
         used_tokens = List.insert (leaf_name e, tok) (used_tokens st)\<rparr>)"
    and "(leaf_name e, tok) \<notin> set (used_tokens st)"
proof (cases "(leaf_name e, None) \<in> set (used_tokens st)")
  case True
  show ?thesis
    by (rule that [of "Some (next_token (used_tokens st) (leaf_name e) 0)"])
       (use assms True in \<open>simp_all add: makeleaf_def Let_def next_token_fresh\<close>)
next
  case False
  show ?thesis
    by (rule that [of None]) (use assms False in \<open>simp_all add: makeleaf_def Let_def\<close>)
qed

lemma makeleaf_inv:
  assumes "leaf_inv st"
  shows "leaf_inv (snd (makeleaf e st))"
proof (cases "map_of (leaf_cache st) e")
  case (Some s)
  with assms show ?thesis by (simp add: makeleaf_hit)
next
  case None
  from makeleaf_miss [OF None] obtain tok where
    mk: "makeleaf e st =
       (Symbol (leaf_name e) (expr_dshape e) tok None,
        \<lparr>leaf_cache = dict_setitem (leaf_cache st) e (Symbol (leaf_name e) (expr_dshape e) tok None),
         used_tokens = List.insert (leaf_name e, tok) (used_tokens st)\<rparr>)"
    and fresh: "(leaf_name e, tok) \<notin> set (used_tokens st)"
    by blast
  have old: "\<And>e' s'. map_of (leaf_cache st) e' = Some s' \<Longrightarrow>
      expr_name s' = leaf_name e' \<and> (leaf_name e', expr_token s') \<in> set (used_tokens st)"
  proof -
    fix e' s'
    assume h: "map_of (leaf_cache st) e' = Some s'"
    with assms have "s' = Symbol (leaf_name e') (expr_dshape e') (expr_token s') None"
      and "(leaf_name e', expr_token s') \<in> set (used_tokens st)"
      unfolding leaf_inv_def by blast+
    then show "expr_name s' = leaf_name e' \<and> (leaf_name e', expr_token s') \<in> set (used_tokens st)"
      by (metis expr_name.simps(1))
  qed
  show ?thesis
    unfolding leaf_inv_def mk snd_conv
  proof (intro conjI allI impI)
    fix e' s'
    assume "map_of (leaf_cache \<lparr>leaf_cache = dict_setitem (leaf_cache st) e (Symbol (leaf_name e) (expr_dshape e) tok None),
         used_tokens = List.insert (leaf_name e, tok) (used_tokens st)\<rparr>) e' = Some s'"
    then have h: "((map_of (leaf_cache st))(e \<mapsto> Symbol (leaf_name e) (expr_dshape e) tok None)) e' = Some s'"
      by (simp add: map_of_dict_setitem)
    show "s' = Symbol (leaf_name e') (expr_dshape e') (expr_token s') None"
      using h assms unfolding leaf_inv_def by (auto split: if_splits)
    show "(leaf_name e', expr_token s') \<in> set (used_tokens \<lparr>leaf_cache = dict_setitem (leaf_cache st) e (Symbol (leaf_name e) (expr_dshape e) tok None),
         used_tokens = List.insert (leaf_name e, tok) (used_tokens st)\<rparr>)"
      using h assms unfolding leaf_inv_def by (auto split: if_splits)
  next
    fix e1 e2 s1 s2
    assume "map_of (leaf_cache \<lparr>leaf_cache = dict_setitem (leaf_cache st) e (Symbol (leaf_name e) (expr_dshape e) tok None),
         used_tokens = List.insert (leaf_name e, tok) (used_tokens st)\<rparr>) e1 = Some s1
       \<and> map_of (leaf_cache \<lparr>leaf_cache = dict_setitem (leaf_cache st) e (Symbol (leaf_name e) (expr_dshape e) tok None),
         used_tokens = List.insert (leaf_name e, tok) (used_tokens st)\<rparr>) e2 = Some s2
       \<and> e1 \<noteq> e2"
    then have h1: "((map_of (leaf_cache st))(e \<mapsto> Symbol (leaf_name e) (expr_dshape e) tok None)) e1 = Some s1"
      and h2: "((map_of (leaf_cache st))(e \<mapsto> Symbol (leaf_name e) (expr_dshape e) tok None)) e2 = Some s2"
      and ne: "e1 \<noteq> e2"
      by (simp_all add: map_of_dict_setitem)
    show "(expr_name s1, expr_token s1) \<noteq> (expr_name s2, expr_token s2)"
    proof (cases "e1 = e")
      case True
      with h1 have s1: "s1 = Symbol (leaf_name e) (expr_dshape e) tok None" by simp
      from True ne h2 have "map_of (leaf_cache st) e2 = Some s2" by simp
      from old [OF this] fresh s1 show ?thesis by auto
    next
      case False
      with h1 have o1: "map_of (leaf_cache st) e1 = Some s1" by simp
      show ?thesis
      proof (cases "e2 = e")
        case True
        with h2 have s2: "s2 = Symbol (leaf_name e) (expr_dshape e) tok None" by simp
        from old [OF o1] fresh s2 show ?thesis by auto
      next
        case False
        with h2 have o2: "map_of (leaf_cache st) e2 = Some s2" by simp
        from assms o1 o2 ne show ?thesis unfolding leaf_inv_def by blast
      qed
    qed
  qed
qed

lemma makeleaf_cached:
  "map_of (leaf_cache (snd (makeleaf e st))) e = Some (fst (makeleaf e st))"
proof (cases "map_of (leaf_cache st) e")
  case (Some s)
  then show ?thesis by (simp add: makeleaf_hit)
next
  case None
  from makeleaf_miss [OF None] obtain tok where
    "makeleaf e st =
       (Symbol (leaf_name e) (expr_dshape e) tok None,
        \<lparr>leaf_cache = dict_setitem (leaf_cache st) e (Symbol (leaf_name e) (expr_dshape e) tok None),
         used_tokens = List.insert (leaf_name e, tok) (used_tokens st)\<rparr>)"
    by blast
  then show ?thesis by (simp add: map_of_dict_setitem)
qed

lemma makeleaf_keeps:
  assumes "map_of (leaf_cache st) e' = Some s"
  shows "map_of (leaf_cache (snd (makeleaf e st))) e' = Some s"
proof (cases "map_of (leaf_cache st) e")
  case (Some s0)
  with assms show ?thesis by (simp add: makeleaf_hit)
next
  case None
  from makeleaf_miss [OF None] obtain tok where
    "makeleaf e st =
       (Symbol (leaf_name e) (expr_dshape e) tok None,
        \<lparr>leaf_cache = dict_setitem (leaf_cache st) e (Symbol (leaf_name e) (expr_dshape e) tok None),
         used_tokens = List.insert (leaf_name e, tok) (used_tokens st)\<rparr>)"
    by blast
  with assms None show ?thesis by (auto simp: map_of_dict_setitem)
qed

lemma makeleaf_all_props:
  assumes "makeleaf_all es st = (ls, st')" and "leaf_inv st"
  shows "leaf_inv st' \<and> length ls = length es
         \<and> (\<forall>i < length es. map_of (leaf_cache st') (es ! i) = Some (ls ! i))
         \<and> (\<forall>e s. map_of (leaf_cache st) e = Some s \<longrightarrow> map_of (leaf_cache st') e = Some s)"
  using assms
proof (induction es arbitrary: st ls st')
  case Nil
  then show ?case by simp
next
  case (Cons e es)
  obtain leaf st1 where mk: "makeleaf e st = (leaf, st1)" by (cases "makeleaf e st")
  obtain ls1 st2 where rest: "makeleaf_all es st1 = (ls1, st2)" by (cases "makeleaf_all es st1")
  from Cons.prems(1) mk rest have ls: "ls = leaf # ls1" and st': "st' = st2" by simp_all
  from makeleaf_inv [OF Cons.prems(2), of e] mk have inv1: "leaf_inv st1" by simp
  from Cons.IH [OF rest inv1] have
    inv2: "leaf_inv st2" and len: "length ls1 = length es"
    and hit: "\<forall>i < length es. map_of (leaf_cache st2) (es ! i) = Some (ls1 ! i)"
    and keep: "\<forall>e s. map_of (leaf_cache st1) e = Some s \<longrightarrow> map_of (leaf_cache st2) e = Some s"
    by blast+
  from makeleaf_cached [of e st] mk have "map_of (leaf_cache st1) e = Some leaf" by simp
  with keep have first: "map_of (leaf_cache st2) e = Some leaf" by blast
  have keep0: "\<forall>e' s. map_of (leaf_cache st) e' = Some s \<longrightarrow> map_of (leaf_cache st2) e' = Some s"
    using makeleaf_keeps [of st _ _ e] mk keep by (metis snd_conv)
  have all: "\<forall>i < length (e # es). map_of (leaf_cache st2) ((e # es) ! i) = Some ((leaf # ls1) ! i)"
    using first hit by (auto simp: nth_Cons split: nat.splits)
  from inv2 len all keep0 show ?case
    unfolding ls st' by simp
qed

text \<open>
  C9: in one evaluation, that is for the allocation requests \<open>es\<close> made in order
  from the reset state, two requests for the same expression return the same
  symbol; two requests for different expressions return symbols that differ in
  the pair of name and token; and if the two different expressions have the same
  display name, the symbols have the same name, different tokens, and are not
  identical.
\<close>

theorem makeleaf_memoized_unique:
  assumes "makeleaf_all es (reset_leaves st) = (ls, st')" and "i < length es" and "j < length es"
  shows "(es ! i = es ! j \<longrightarrow> ls ! i = ls ! j)
       \<and> (es ! i \<noteq> es ! j \<longrightarrow>
            (expr_name (ls ! i), expr_token (ls ! i)) \<noteq> (expr_name (ls ! j), expr_token (ls ! j)))
       \<and> (es ! i \<noteq> es ! j \<and> expr_name (es ! i) = expr_name (es ! j) \<longrightarrow>
            expr_name (ls ! i) = expr_name (ls ! j) \<and> expr_token (ls ! i) \<noteq> expr_token (ls ! j)
            \<and> ls ! i \<noteq> ls ! j)"
proof -
  from makeleaf_all_props [OF assms(1) leaf_inv_reset] have
    inv: "leaf_inv st'"
    and hit: "\<forall>i < length es. map_of (leaf_cache st') (es ! i) = Some (ls ! i)"
    by blast+
  from hit assms(2,3) have hi: "map_of (leaf_cache st') (es ! i) = Some (ls ! i)"
    and hj: "map_of (leaf_cache st') (es ! j) = Some (ls ! j)" by blast+
  have memo: "es ! i = es ! j \<longrightarrow> ls ! i = ls ! j"
    using hi hj by auto
  have uniq: "es ! i \<noteq> es ! j \<longrightarrow>
      (expr_name (ls ! i), expr_token (ls ! i)) \<noteq> (expr_name (ls ! j), expr_token (ls ! j))"
    using inv hi hj unfolding leaf_inv_def by blast
  from inv hi have ni: "ls ! i = Symbol (leaf_name (es ! i)) (expr_dshape (es ! i)) (expr_token (ls ! i)) None"
    unfolding leaf_inv_def by blast
  from inv hj have nj: "ls ! j = Symbol (leaf_name (es ! j)) (expr_dshape (es ! j)) (expr_token (ls ! j)) None"
    unfolding leaf_inv_def by blast
  have names: "expr_name (es ! i) = expr_name (es ! j) \<longrightarrow> expr_name (ls ! i) = expr_name (ls ! j)"
    using ni nj by (metis expr_name.simps(1) leaf_name_def)
  from memo uniq names show ?thesis
    by auto
qed

theorem makeleaf_memoized_unique_witness:
  "1 < length [ex_tx, ex_tx1, ex_tx1] \<and> 2 < length [ex_tx, ex_tx1, ex_tx1]
   \<and> [ex_tx, ex_tx1, ex_tx1] ! 0 \<noteq> [ex_tx, ex_tx1, ex_tx1] ! 1
   \<and> expr_name ([ex_tx, ex_tx1, ex_tx1] ! 0) = expr_name ([ex_tx, ex_tx1, ex_tx1] ! 1)
   \<and> fst (makeleaf_all [ex_tx, ex_tx1, ex_tx1] (reset_leaves empty_leaves)) ! 1
       = fst (makeleaf_all [ex_tx, ex_tx1, ex_tx1] (reset_leaves empty_leaves)) ! 2
   \<and> expr_name (fst (makeleaf_all [ex_tx, ex_tx1, ex_tx1] (reset_leaves empty_leaves)) ! 0)
       = expr_name (fst (makeleaf_all [ex_tx, ex_tx1, ex_tx1] (reset_leaves empty_leaves)) ! 1)
   \<and> expr_token (fst (makeleaf_all [ex_tx, ex_tx1, ex_tx1] (reset_leaves empty_leaves)) ! 0)
       \<noteq> expr_token (fst (makeleaf_all [ex_tx, ex_tx1, ex_tx1] (reset_leaves empty_leaves)) ! 1)
   \<and> fst (makeleaf_all [ex_tx, ex_tx1, ex_tx1] (reset_leaves empty_leaves)) ! 0
       \<noteq> fst (makeleaf_all [ex_tx, ex_tx1, ex_tx1] (reset_leaves empty_leaves)) ! 1"
proof -
  obtain ls st' where
    run: "makeleaf_all [ex_tx, ex_tx1, ex_tx1] (reset_leaves empty_leaves) = (ls, st')"
    by (cases "makeleaf_all [ex_tx, ex_tx1, ex_tx1] (reset_leaves empty_leaves)")
  have ne: "ex_tx \<noteq> ex_tx1" and nm: "expr_name ex_tx = expr_name ex_tx1"
    by (simp_all add: ex_tx_def ex_tx1_def ex_t_def)
  have ls: "fst (makeleaf_all [ex_tx, ex_tx1, ex_tx1] (reset_leaves empty_leaves)) = ls"
    by (simp only: run fst_conv)
  from makeleaf_memoized_unique [OF run, of 1 2] makeleaf_memoized_unique [OF run, of 0 1] ne nm
  show ?thesis
    unfolding ls by simp
qed

section \<open>Unbound leaves\<close>

lemma bottom_up_after_inputs:
  assumes "map_of sc (VExpr expr) = None"
    and "bottom_up_inputs rt (unique (inputs expr)) sc st = Inr (results, st1)"
    and "results \<noteq> []"
  shows "bottom_up_until_type_break rt expr sc st =
     (let new_scope = merge (map snd results);
          new_expr = subs expr (dict_of (filter (\<lambda>(i, e). i \<noteq> e)
                       (zip (unique (inputs expr)) (map fst results))))
      in if type_change (sorted_by_type rt (map snd new_scope))
              (sorted_by_type rt (map (\<lambda>leaf. dict_get sc (VExpr leaf)) (leaves expr)))
         then Inr ((new_expr, new_scope), st1)
         else
           case dict_getitems new_scope (map VExpr (inputs new_expr)) of
             Inl e \<Rightarrow> Inl e
           | Inr data \<Rightarrow>
               (case compute_up_h rt new_expr data new_scope of
                  Inl e \<Rightarrow> Inl (Raised e)
                | Inr v \<Rightarrow> Inr ((fst (makeleaf expr st1), [(VExpr (fst (makeleaf expr st1)), v)]),
                              snd (makeleaf expr st1))))"
  using assms
  by (subst bottom_up_until_type_break.simps)
     (simp add: Let_def split_beta split: sum.splits)

lemma bottom_up_no_inputs:
  assumes "map_of sc (VExpr expr) = None" and "inputs expr = []"
  shows "bottom_up_until_type_break rt expr sc st = Inl UnpackError"
  using assms
  by (subst bottom_up_until_type_break.simps) (simp add: unique_def)

lemma type_change_None:
  assumes "VNone \<in> set new"
  shows "type_change old new
     = (length old \<noteq> length new
        \<or> \<not> list_all (\<lambda>(a, b). issubtype a b) (zip (map py_type new) (map py_type old)))"
proof -
  have "\<not> isinstance_base VNone"
    by (simp add: isinstance_base_def)
  with assms have "\<not> list_all isinstance_base (old @ new)"
    by (auto simp: list_all_iff)
  then show ?thesis
    unfolding type_change_def Let_def by (simp del: list_all_append)
qed

text \<open>
  C10: a leaf of the expression with no binding in the incoming scope is looked
  up with \<^verbatim>\<open>scope.get\<close>, which returns \<open>None\<close> and raises nothing, in the
  partial evaluator and in the driver alike (both build the same list). The list of
  old leaf values then holds \<open>None\<close>, which is no primitive scalar, so
  \<open>type_change\<close> on the sorted lists is past its first test: it is decided by
  the lengths and the pairwise type comparison. In \<open>bottom_up_until_type_break\<close>
  this means a break whenever the sizes differ or an aligned pair is incompatible,
  also when every other value is primitive. In the driver the list holding
  \<open>None\<close> is what \<^verbatim>\<open>compute_down\<close> receives: the first round of the driver
  on an expression that is not a scope key is decided by that call alone, its
  value is the result when it returns one, and only its
  \<^verbatim>\<open>NotImplementedError\<close> leads on to the partial evaluator.
\<close>

theorem unbound_leaf_is_None:
  assumes "leaf \<in> set (leaves expr)" and "map_of sc (VExpr leaf) = None"
  shows "dict_get sc (VExpr leaf) = VNone
     \<and> VNone \<in> set (map (\<lambda>leaf. dict_get sc (VExpr leaf)) (leaves expr))
     \<and> \<not> isinstance_base VNone
     \<and> type_change (sorted_by_type rt vals)
          (sorted_by_type rt (map (\<lambda>leaf. dict_get sc (VExpr leaf)) (leaves expr)))
        = (length vals \<noteq> length (leaves expr)
           \<or> \<not> list_all (\<lambda>(a, b). issubtype a b)
                (zip (map py_type (sorted_by_type rt (map (\<lambda>leaf. dict_get sc (VExpr leaf)) (leaves expr))))
                     (map py_type (sorted_by_type rt vals))))
     \<and> (map_of sc (VExpr expr) = None
          \<and> bottom_up_inputs rt (unique (inputs expr)) sc st = Inr (results, st1)
          \<and> results \<noteq> []
          \<and> (length (merge (map snd results)) \<noteq> length (leaves expr)
               \<or> \<not> list_all (\<lambda>(a, b). issubtype a b)
                    (zip (map py_type (sorted_by_type rt (map (\<lambda>leaf. dict_get sc (VExpr leaf)) (leaves expr))))
                         (map py_type (sorted_by_type rt (map snd (merge (map snd results)))))))
        \<longrightarrow> bottom_up_until_type_break rt expr sc st
            = Inr ((subs expr (dict_of (filter (\<lambda>(i, e). i \<noteq> e)
                       (zip (unique (inputs expr)) (map fst results)))),
                    merge (map snd results)), st1))
     \<and> (map_of sc (VExpr expr) = None
        \<longrightarrow> top_then_bottom_then_top_again_etc (Suc n) rt kw expr sc st =
            (case compute_down_h rt expr (map (\<lambda>leaf. dict_get sc (VExpr leaf)) (leaves expr)) kw of
               Inr v \<Rightarrow> Some (Inr v)
             | Inl (HandlerFault m) \<Rightarrow> Some (Inl (Raised (HandlerFault m)))
             | Inl NotImplementedError \<Rightarrow>
                 (case bottom_up_until_type_break rt expr sc st of
                    Inl e \<Rightarrow> Some (Inl e)
                  | Inr ((new_expr, new_scope), st') \<Rightarrow>
                      (case loop_pre_compute rt kw new_expr new_scope of
                         Inl e \<Rightarrow> Some (Inl e)
                       | Inr new_scope2 \<Rightarrow>
                           (case loop_optimize rt kw new_expr new_scope2 of
                              Inl e \<Rightarrow> Some (Inl e)
                            | Inr new_expr2 \<Rightarrow>
                                top_then_bottom_then_top_again_etc n rt no_kwargs
                                  new_expr2 new_scope2 st')))))
     \<and> (map_of sc (VExpr expr) = None
          \<and> compute_down_h rt expr (map (\<lambda>leaf. dict_get sc (VExpr leaf)) (leaves expr)) kw = Inr w
        \<longrightarrow> top_then_bottom_then_top_again_etc (Suc n) rt kw expr sc st = Some (Inr w))"
proof -
  let ?old = "map (\<lambda>leaf. dict_get sc (VExpr leaf)) (leaves expr)"
  have get: "dict_get sc (VExpr leaf) = VNone"
    using assms(2) by (simp add: dict_get_def)
  with assms(1) have mem: "VNone \<in> set ?old"
    by force
  then have mem': "VNone \<in> set (sorted_by_type rt ?old)"
    by (simp add: sorted_by_type_def)
  have nb: "\<not> isinstance_base VNone"
    by (simp add: isinstance_base_def)
  have tc: "\<And>vs. type_change (sorted_by_type rt vs) (sorted_by_type rt ?old)
        = (length vs \<noteq> length (leaves expr)
           \<or> \<not> list_all (\<lambda>(a, b). issubtype a b)
                (zip (map py_type (sorted_by_type rt ?old)) (map py_type (sorted_by_type rt vs))))"
    using type_change_None [OF mem'] by (simp add: sorted_by_type_def)
  have fn: "map_of sc (VExpr expr) = None
          \<and> bottom_up_inputs rt (unique (inputs expr)) sc st = Inr (results, st1)
          \<and> results \<noteq> []
          \<and> (length (merge (map snd results)) \<noteq> length (leaves expr)
               \<or> \<not> list_all (\<lambda>(a, b). issubtype a b)
                    (zip (map py_type (sorted_by_type rt (map (\<lambda>leaf. dict_get sc (VExpr leaf)) (leaves expr))))
                         (map py_type (sorted_by_type rt (map snd (merge (map snd results)))))))
        \<longrightarrow> bottom_up_until_type_break rt expr sc st
            = Inr ((subs expr (dict_of (filter (\<lambda>(i, e). i \<noteq> e)
                       (zip (unique (inputs expr)) (map fst results)))),
                    merge (map snd results)), st1)"
  proof (intro impI, elim conjE)
    assume a: "map_of sc (VExpr expr) = None"
      "bottom_up_inputs rt (unique (inputs expr)) sc st = Inr (results, st1)"
      "results \<noteq> []"
      "length (merge (map snd results)) \<noteq> length (leaves expr)
               \<or> \<not> list_all (\<lambda>(a, b). issubtype a b)
                    (zip (map py_type (sorted_by_type rt (map (\<lambda>leaf. dict_get sc (VExpr leaf)) (leaves expr))))
                         (map py_type (sorted_by_type rt (map snd (merge (map snd results))))))"
    from tc [of "map snd (merge (map snd results))"] a(4)
    have "type_change (sorted_by_type rt (map snd (merge (map snd results)))) (sorted_by_type rt ?old)"
      by simp
    with bottom_up_after_inputs [OF a(1) a(2) a(3)] show "bottom_up_until_type_break rt expr sc st
            = Inr ((subs expr (dict_of (filter (\<lambda>(i, e). i \<noteq> e)
                       (zip (unique (inputs expr)) (map fst results)))),
                    merge (map snd results)), st1)"
      by (simp add: Let_def)
  qed
  have drv: "map_of sc (VExpr expr) = None
        \<longrightarrow> top_then_bottom_then_top_again_etc (Suc n) rt kw expr sc st =
            (case compute_down_h rt expr ?old kw of
               Inr v \<Rightarrow> Some (Inr v)
             | Inl (HandlerFault m) \<Rightarrow> Some (Inl (Raised (HandlerFault m)))
             | Inl NotImplementedError \<Rightarrow>
                 (case bottom_up_until_type_break rt expr sc st of
                    Inl e \<Rightarrow> Some (Inl e)
                  | Inr ((new_expr, new_scope), st') \<Rightarrow>
                      (case loop_pre_compute rt kw new_expr new_scope of
                         Inl e \<Rightarrow> Some (Inl e)
                       | Inr new_scope2 \<Rightarrow>
                           (case loop_optimize rt kw new_expr new_scope2 of
                              Inl e \<Rightarrow> Some (Inl e)
                            | Inr new_expr2 \<Rightarrow>
                                top_then_bottom_then_top_again_etc n rt no_kwargs
                                  new_expr2 new_scope2 st'))))"
    by (simp add: Let_def)
  have down: "map_of sc (VExpr expr) = None \<and> compute_down_h rt expr ?old kw = Inr w
        \<longrightarrow> top_then_bottom_then_top_again_etc (Suc n) rt kw expr sc st = Some (Inr w)"
    by (simp add: Let_def)
  from get mem nb tc [of vals] fn drv down show ?thesis
    by blast
qed

theorem unbound_leaf_is_None_witness:
  "ex_s \<in> set (leaves ex_fg)
   \<and> map_of [(VExpr ex_g, VInt 1)] (VExpr ex_s) = None
   \<and> dict_get [(VExpr ex_g, VInt 1)] (VExpr ex_s) = VNone
   \<and> bottom_up_until_type_break ex_registry ex_fg [(VExpr ex_g, VInt 1)] empty_leaves
       = Inr ((Op ''Sum'' ''amount_sum'' ''int'' [Symbol ''amount'' ''var * int'' None None],
               [(VExpr (Symbol ''amount'' ''var * int'' None None), VInt 1)]),
              \<lparr>leaf_cache = [(ex_g, Symbol ''amount'' ''var * int'' None None)],
               used_tokens = [(''amount'', None)]\<rparr>)
   \<and> map (\<lambda>leaf. dict_get [(VExpr ex_g, VInt 1)] (VExpr leaf)) (leaves ex_fg) = [VNone]
   \<and> top_then_bottom_then_top_again_etc (Suc (Suc (Suc 0))) ex_registry no_kwargs ex_fg
        [(VExpr ex_g, VInt 1)] empty_leaves = Some (Inr (VInt 600))
   \<and> top_then_bottom_then_top_again_etc (Suc 0) ex_registry_down no_kwargs ex_fg
        [(VExpr ex_g, VInt 1)] empty_leaves = Some (Inr (VStr ''whole''))"
proof -
  let ?sc = "[(VExpr ex_g, VInt 1)]"
  let ?am = "Symbol ''amount'' ''var * int'' None None :: pyval expr"
  let ?st1 = "\<lparr>leaf_cache = [(ex_g, ?am)], used_tokens = [(''amount'', None)]\<rparr>"
  have l: "ex_s \<in> set (leaves ex_fg)"
    by (simp add: ex_fg_def ex_g_def ex_s_def unique_def)
  have u: "map_of ?sc (VExpr ex_s) = None"
    by (simp add: ex_g_def ex_s_def)
  have ins: "bottom_up_inputs ex_registry (unique (inputs ex_fg)) ?sc empty_leaves
     = Inr ([(?am, [(VExpr ?am, VInt 1)])], ?st1)"
    by (simp add: ex_fg_def ex_g_def ex_s_def ex_registry_def eval_defs)
  have nb: "map_of ?sc (VExpr ex_fg) = None"
    by (simp add: ex_fg_def ex_g_def)
  have data: "map (\<lambda>leaf. dict_get ?sc (VExpr leaf)) (leaves ex_fg) = [VNone]"
    by (simp add: ex_fg_def ex_g_def ex_s_def eval_defs)
  note T = unbound_leaf_is_None [OF l u, of ex_registry _ empty_leaves
      "[(?am, [(VExpr ?am, VInt 1)])]" ?st1 "Suc (Suc 0)" no_kwargs]
  from T have get: "dict_get ?sc (VExpr ex_s) = VNone"
    by (rule conjunct1)
  have brk: "length (merge (map snd [(?am, [(VExpr ?am, VInt 1)])])) \<noteq> length (leaves ex_fg)
       \<or> \<not> list_all (\<lambda>(a, b). issubtype a b)
            (zip (map py_type (sorted_by_type ex_registry
                    (map (\<lambda>leaf. dict_get ?sc (VExpr leaf)) (leaves ex_fg))))
                 (map py_type (sorted_by_type ex_registry
                    (map snd (merge (map snd [(?am, [(VExpr ?am, VInt 1)])]))))))"
    by (simp add: data) (simp add: eval_defs)
  from T nb ins brk
  have "bottom_up_until_type_break ex_registry ex_fg ?sc empty_leaves
      = Inr ((subs ex_fg (dict_of (filter (\<lambda>(i, e). i \<noteq> e)
                (zip (unique (inputs ex_fg)) (map fst [(?am, [(VExpr ?am, VInt 1)])])))),
              merge (map snd [(?am, [(VExpr ?am, VInt 1)])])), ?st1)"
    by blast
  then have bu: "bottom_up_until_type_break ex_registry ex_fg ?sc empty_leaves
      = Inr ((Op ''Sum'' ''amount_sum'' ''int'' [?am], [(VExpr ?am, VInt 1)]), ?st1)"
    by (simp add: ex_fg_def ex_g_def ex_s_def eval_defs)
  from T nb
  have "top_then_bottom_then_top_again_etc (Suc (Suc (Suc 0))) ex_registry no_kwargs ex_fg ?sc empty_leaves =
            (case compute_down_h ex_registry ex_fg (map (\<lambda>leaf. dict_get ?sc (VExpr leaf)) (leaves ex_fg)) no_kwargs of
               Inr v \<Rightarrow> Some (Inr v)
             | Inl (HandlerFault m) \<Rightarrow> Some (Inl (Raised (HandlerFault m)))
             | Inl NotImplementedError \<Rightarrow>
                 (case bottom_up_until_type_break ex_registry ex_fg ?sc empty_leaves of
                    Inl e \<Rightarrow> Some (Inl e)
                  | Inr ((new_expr, new_scope), st') \<Rightarrow>
                      (case loop_pre_compute ex_registry no_kwargs new_expr new_scope of
                         Inl e \<Rightarrow> Some (Inl e)
                       | Inr new_scope2 \<Rightarrow>
                           (case loop_optimize ex_registry no_kwargs new_expr new_scope2 of
                              Inl e \<Rightarrow> Some (Inl e)
                            | Inr new_expr2 \<Rightarrow>
                                top_then_bottom_then_top_again_etc (Suc (Suc 0)) ex_registry no_kwargs
                                  new_expr2 new_scope2 st'))))"
    (is "_ = ?rhs")
    by blast
  moreover have "?rhs = Some (Inr (VInt 600))"
    by (simp add: ex_fg_def ex_g_def ex_s_def ex_registry_def ex_compute_up_def eval_defs)
  ultimately have run: "top_then_bottom_then_top_again_etc (Suc (Suc (Suc 0))) ex_registry no_kwargs
      ex_fg ?sc empty_leaves = Some (Inr (VInt 600))"
    by (simp only:)
  have dn: "compute_down_h ex_registry_down ex_fg
      (map (\<lambda>leaf. dict_get ?sc (VExpr leaf)) (leaves ex_fg)) no_kwargs = Inr (VStr ''whole'')"
    by (simp add: data) (simp add: ex_registry_down_def)
  from unbound_leaf_is_None [OF l u, where rt = ex_registry_down and n = 0 and kw = no_kwargs
      and w = "VStr ''whole''" and st = empty_leaves] nb dn
  have whole: "top_then_bottom_then_top_again_etc (Suc 0) ex_registry_down no_kwargs ex_fg
        ?sc empty_leaves = Some (Inr (VStr ''whole''))"
    by blast
  from l u get bu data run whole show ?thesis
    by (intro conjI)
qed

section \<open>The partial evaluator on expressions without inputs\<close>

text \<open>
  C1 describes the partial evaluator for every expression that is not bound in
  the scope. For an unbound expression without inputs, such as the symbol \<open>x\<close>
  under the empty scope, the description gives: no input to reduce, an empty
  merged scope, the detector comparing no value with the single value \<open>None\<close>
  and reporting a break, hence the result \<open>(x, {})\<close>. The code raises instead:
  unpacking \<^verbatim>\<open>zip(*[])\<close> into two names fails before the detector is
  reached.
\<close>

theorem bottom_up_unbound_leaf_raises:
  "map_of [] (VExpr ex_x) = None
   \<and> type_change (sorted_by_type (module_registry type_rank) (map snd (merge [])))
        (sorted_by_type (module_registry type_rank)
           (map (\<lambda>leaf. dict_get [] (VExpr leaf)) (leaves ex_x)))
   \<and> bottom_up_until_type_break (module_registry type_rank) ex_x [] empty_leaves = Inl UnpackError"
  by (simp add: ex_x_def eval_defs)

text \<open>
  A second way in which the evaluator leaves the described path: one input stops
  at a break and stays a compound expression, the detector reports no break one
  level up, and the lookup of that input in the merged scope raises
  \<^verbatim>\<open>KeyError\<close> before \<^verbatim>\<open>compute_up\<close> is called.
\<close>

lemma bottom_up_missing_key_raises:
  "bottom_up_until_type_break ex_registry ex_pair
     [(VExpr ex_a, VList [VInt 1]), (VExpr ex_b, VInt 5)] empty_leaves
   = Inl (KeyError (VExpr (Op ''Neg'' ''n'' ''int'' [Symbol ''a_sum'' ''int'' None None])))"
  by (simp add: ex_registry_def ex_compute_up_def ex_pair_def ex_a_def ex_b_def eval_defs)

section \<open>Configuration overrides in the driver\<close>

lemma loop_pre_compute_ignores_override:
  "loop_pre_compute rt (kw\<lparr>kw_pre_compute := Given (Some f)\<rparr>) new_expr new_scope
   = loop_pre_compute rt (kw\<lparr>kw_pre_compute := Absent\<rparr>) new_expr new_scope"
  by (simp add: loop_pre_compute_def)

text \<open>
  C3 says that the configured \<^verbatim>\<open>pre_compute\<close> replaces the dispatched hook
  in every round of the driver. The driver only tests the override and then calls
  the dispatched \<^verbatim>\<open>pre_compute\<close>; and its recursive call passes no keyword
  argument. With the override \<open>ex_wrap\<close>, which wraps a value into a list, and
  \<open>x\<close> bound to \<open>5\<close>, the entry point wraps once (\<open>[5]\<close>), the partial
  evaluator returns the leaf \<open>y\<close> bound to \<open>[5]\<close>, and the re-application in
  the driver leaves \<open>[5]\<close> where the override gives \<open>[[5]]\<close>.
\<close>

theorem pre_compute_override_not_used:
  "compute 3 ex_registry (no_kwargs\<lparr>kw_pre_compute := Given (Some ex_wrap)\<rparr>) ex_distinct
      (VDict [(VExpr ex_x, VInt 5)]) empty_leaves = Some (Inr (VList [VInt 5]))
   \<and> bottom_up_until_type_break ex_registry ex_distinct [(VExpr ex_x, VList [VInt 5])] empty_leaves
      = Inr ((Symbol ''y'' ''int'' None None, [(VExpr (Symbol ''y'' ''int'' None None), VList [VInt 5])]),
             \<lparr>leaf_cache = [(ex_x, ex_x), (ex_distinct, Symbol ''y'' ''int'' None None)],
              used_tokens = [(''y'', None), (''x'', None)]\<rparr>)
   \<and> ex_wrap (VExpr (Symbol ''y'' ''int'' None None)) (VList [VInt 5]) = Inr (VList [VList [VInt 5]])
   \<and> loop_pre_compute ex_registry (no_kwargs\<lparr>kw_pre_compute := Given (Some ex_wrap)\<rparr>)
        (Symbol ''y'' ''int'' None None) [(VExpr (Symbol ''y'' ''int'' None None), VList [VInt 5])]
      = Inr [(VExpr (Symbol ''y'' ''int'' None None), VList [VInt 5])]"
  by (simp add: ex_registry_def ex_compute_up_def ex_distinct_def ex_x_def ex_wrap_def eval_defs eval_nat_numeral)

section \<open>The Ambiguous-Binding error\<close>

lemma set_unique_from: "set (unique_from seen xs) = set xs - set seen"
  by (induction xs arbitrary: seen) auto

lemma distinct_unique_from: "distinct (unique_from seen xs)"
  by (induction xs arbitrary: seen) (auto simp: set_unique_from)

lemma set_unique: "set (unique xs) = set xs"
  by (simp add: unique_def set_unique_from)

lemma distinct_unique: "distinct (unique xs)"
  by (simp add: unique_def distinct_unique_from)

lemma length_unique: "length (unique xs) = card (set xs)"
  using distinct_card [OF distinct_unique, of xs] by (simp add: set_unique)

lemma unique_singleton:
  assumes "set xs = {s}"
  shows "unique xs = [s]"
proof -
  have "length (unique xs) = 1"
    using assms by (simp add: length_unique)
  then obtain y where y: "unique xs = [y]"
    by (cases "unique xs") auto
  with set_unique [of xs] assms show ?thesis
    by auto
qed

lemma dict_getitems_error:
  "dict_getitems d ks = Inl e \<Longrightarrow> \<exists>k. e = KeyError k"
  by (induction ks arbitrary: e) (auto simp: dict_getitem_def split: option.splits sum.splits)

lemma bottom_up_not_ambiguous:
  "bottom_up_until_type_break rt expr sc st \<noteq> Inl AmbiguousBinding"
  "bottom_up_inputs rt es sc st \<noteq> Inl AmbiguousBinding"
proof (induction rt expr sc st and rt es sc st
    rule: bottom_up_until_type_break_bottom_up_inputs.induct)
  case (1 rt expr sc st)
  show ?case
  proof (cases "map_of sc (VExpr expr)")
    case (Some v)
    then show ?thesis
      by (subst bottom_up_until_type_break.simps) (simp add: split_beta)
  next
    case None
    with "1.IH" [OF None refl] show ?thesis
      by (subst bottom_up_until_type_break.simps)
         (auto simp: Let_def split_beta split: sum.splits dest: dict_getitems_error)
  qed
next
  case (2 rt sc st)
  show ?case by simp
next
  case (3 rt i "is" sc st)
  show ?case
  proof (cases "bottom_up_until_type_break rt i sc st")
    case (Inl e)
    with "3.IH"(1) show ?thesis by auto
  next
    case (Inr p)
    obtain r st' where p: "p = (r, st')" by (cases p)
    from "3.IH"(2) [OF Inr [unfolded p] refl]
    have "bottom_up_inputs rt is sc st' \<noteq> Inl AmbiguousBinding" .
    with Inr p show ?thesis
      by (auto split: sum.splits)
  qed
qed

lemma try_optimize_not_ambiguous: "try_optimize f e vals \<noteq> Inl AmbiguousBinding"
  by (simp add: try_optimize_def split: sum.splits handler_error.splits)

lemma loop_pre_compute_not_ambiguous: "loop_pre_compute rt kw e sc \<noteq> Inl AmbiguousBinding"
  by (simp add: loop_pre_compute_def split: option.splits sum.splits)

lemma loop_optimize_not_ambiguous: "loop_optimize rt kw e sc \<noteq> Inl AmbiguousBinding"
  by (auto simp: loop_optimize_def try_optimize_not_ambiguous
      split: option.splits sum.splits dest: dict_getitems_error)

lemma entry_pre_compute_not_ambiguous: "entry_pre_compute rt kw d \<noteq> Inl AmbiguousBinding"
  by (simp add: entry_pre_compute_def split: option.splits sum.splits)

lemma entry_optimize_not_ambiguous: "entry_optimize rt kw e d \<noteq> Inl AmbiguousBinding"
  by (simp add: entry_optimize_def try_optimize_not_ambiguous split: option.splits)

lemma driver_not_ambiguous:
  "top_then_bottom_then_top_again_etc n rt kw expr sc st \<noteq> Some (Inl AmbiguousBinding)"
proof (induction n arbitrary: kw expr sc st)
  case 0
  show ?case by simp
next
  case (Suc n)
  show ?case
    using Suc.IH bottom_up_not_ambiguous(1) loop_pre_compute_not_ambiguous
      loop_optimize_not_ambiguous
    by (auto simp: Let_def split: option.splits sum.splits handler_error.splits)
qed

lemma compute_Expr_dict_not_ambiguous:
  "compute_Expr_dict n rt kw expr d st \<noteq> Some (Inl AmbiguousBinding)"
  using driver_not_ambiguous entry_pre_compute_not_ambiguous entry_optimize_not_ambiguous
  by (auto simp: compute_Expr_dict_def Let_def split_beta
      split: option.splits sum.splits)

text \<open>
  C6: the single-value form of \<open>compute\<close> ends with the Ambiguous-Binding
  error exactly when the number of distinct symbols among the sub-nodes of the
  expression is not one. With exactly one symbol it delegates to the mapping form,
  where neither the core nor a handler (whose failures are of the other two kinds)
  produces that error.
\<close>

theorem ambiguous_binding_iff:
  "(compute_Expr_object n rt kw expr obj st = Some (Inl AmbiguousBinding))
   = (card {s \<in> set (subterms expr). is_Symbol s} \<noteq> 1)"
proof -
  have len: "length (unique (filter is_Symbol (subterms expr)))
      = card {s \<in> set (subterms expr). is_Symbol s}"
    by (simp add: length_unique)
  show ?thesis
  proof (cases "card {s \<in> set (subterms expr). is_Symbol s} = 1")
    case True
    with len compute_Expr_dict_not_ambiguous show ?thesis
      by (simp add: compute_Expr_object_def Let_def)
  next
    case False
    with len show ?thesis
      by (simp add: compute_Expr_object_def Let_def)
  qed
qed

section \<open>The two forms of compute\<close>

lemma compute_Expr_dict_state:
  "compute_Expr_dict n rt kw expr d st = compute_Expr_dict n rt kw expr d st'"
  by (simp add: compute_Expr_dict_def reset_leaves_def)

text \<open>
  C5, as stated, fails for a data value that is a dictionary: the dispatcher sends
  a dictionary to the mapping form, where it is the scope. With the empty
  dictionary as data for the symbol \<open>x\<close>, \<open>compute(x, {})\<close> runs \<open>x\<close> against
  the empty scope and fails, and \<open>compute(x, {x: {}})\<close> returns \<open>{}\<close>.
\<close>

theorem compute_single_counterexample:
  "compute 1 (module_registry type_rank) no_kwargs ex_x (VDict []) empty_leaves
     = Some (Inl UnpackError)
   \<and> compute 1 (module_registry type_rank) no_kwargs ex_x (VDict [(VExpr ex_x, VDict [])]) empty_leaves
     = Some (Inr (VDict []))"
  by (simp add: ex_x_def eval_defs)

text \<open>
  C5, amended: for every expression with exactly one free symbol \<open>s\<close> and every
  data value \<open>d\<close> that is not a dictionary, \<open>compute(expr, d)\<close> equals
  \<open>compute(expr, {s: d})\<close>, whatever the allocator state before either call.
\<close>

theorem compute_single_delegates:
  assumes "{x \<in> set (subterms expr). is_Symbol x} = {s}" and "py_type d \<noteq> TDict"
  shows "compute n rt kw expr d st = compute n rt kw expr (VDict [(VExpr s, d)]) st'"
proof -
  from assms(1) have "set (filter is_Symbol (subterms expr)) = {s}"
    by simp
  then have u: "unique (filter is_Symbol (subterms expr)) = [s]"
    by (rule unique_singleton)
  from assms(2) have "compute n rt kw expr d st = compute_Expr_object n rt kw expr d st"
    by (cases d) (simp_all add: compute_def)
  also from u have "\<dots> = compute_Expr_dict n rt kw expr [(VExpr s, d)] st"
    by (simp add: compute_Expr_object_def)
  also have "\<dots> = compute n rt kw expr (VDict [(VExpr s, d)]) st'"
    using compute_Expr_dict_state [of n rt kw expr "[(VExpr s, d)]" st st']
    by (simp add: compute_def)
  finally show ?thesis .
qed

theorem compute_single_delegates_witness:
  "{x \<in> set (subterms ex_distinct). is_Symbol x} = {ex_x} \<and> py_type (VInt 5) \<noteq> TDict
   \<and> compute 3 ex_registry no_kwargs ex_distinct (VInt 5) empty_leaves
       = compute 3 ex_registry no_kwargs ex_distinct (VDict [(VExpr ex_x, VInt 5)]) empty_leaves
   \<and> compute 3 ex_registry no_kwargs ex_distinct (VInt 5) empty_leaves = Some (Inr (VInt 5))"
proof -
  have h: "{x \<in> set (subterms ex_distinct). is_Symbol x} = {ex_x}"
    by (auto simp: ex_registry_def ex_compute_up_def ex_distinct_def ex_x_def)
  have t: "py_type (VInt 5) \<noteq> TDict"
    by simp
  have v: "compute 3 ex_registry no_kwargs ex_distinct (VDict [(VExpr ex_x, VInt 5)]) empty_leaves
      = Some (Inr (VInt 5))"
    by (simp add: ex_registry_def ex_compute_up_def ex_distinct_def ex_x_def eval_defs eval_nat_numeral)
  from compute_single_delegates [OF h t, of 3 ex_registry no_kwargs empty_leaves empty_leaves] h t v
  show ?thesis
    by simp
qed

section \<open>Dictionaries, substitution and the module handlers\<close>

lemma map_of_dict_update: "map_of (dict_update rv d) = map_of rv ++ map_of (rev d)"
proof (induction d arbitrary: rv)
  case Nil
  show ?case by simp
next
  case (Cons p d)
  obtain k v where p: "p = (k, v)" by (cases p)
  show ?case
    unfolding p by (simp add: Cons.IH map_of_dict_setitem) (simp add: map_add_def fun_eq_iff split: option.splits)
qed

lemma map_of_dict_of: "map_of (dict_of pairs) = map_of (rev pairs)"
  by (simp add: dict_of_def map_of_dict_update)

lemma map_of_rev_None: "map_of (rev d) k = None \<longleftrightarrow> map_of d k = None"
  by (simp add: map_of_eq_None_iff)









section \<open>The resource binder\<close>

lemma set_dict_setitem: "set (dict_setitem d k v) \<subseteq> insert (k, v) (set d)"
  by (induction d) (auto split: if_splits)

lemma set_dict_update: "set (dict_update rv d) \<subseteq> set rv \<union> set d"
proof (induction d arbitrary: rv)
  case Nil
  show ?case by simp
next
  case (Cons p d)
  obtain k v where p: "p = (k, v)" by (cases p)
  from Cons.IH [of "dict_setitem rv k v"] set_dict_setitem [of rv k v] show ?case
    unfolding p by auto
qed

lemma set_merge_into: "set (merge_into rv ds) \<subseteq> set rv \<union> (\<Union>d \<in> set ds. set d)"
proof (induction ds arbitrary: rv)
  case Nil
  show ?case by simp
next
  case (Cons d ds)
  from Cons.IH [of "dict_update rv d"] set_dict_update [of rv d] show ?case
    by auto
qed

lemma keys_dict_update: "fst ` set (dict_update rv d) = fst ` set rv \<union> fst ` set d"
proof -
  have "dom (map_of (dict_update rv d)) = dom (map_of rv) \<union> dom (map_of (rev d))"
    by (simp add: map_of_dict_update Un_commute)
  then show ?thesis
    by (simp add: dom_map_of_conv_image_fst)
qed

lemma keys_merge_into:
  "fst ` set (merge_into rv ds) = fst ` set rv \<union> (\<Union>d \<in> set ds. fst ` set d)"
  by (induction ds arbitrary: rv) (auto simp: keys_dict_update)

lemma distinct_dict_setitem: "distinct (map fst d) \<Longrightarrow> distinct (map fst (dict_setitem d k v))"
proof (induction d)
  case Nil
  show ?case by simp
next
  case (Cons p d)
  have "fst ` set (dict_setitem d k v) \<subseteq> insert k (fst ` set d)"
    using set_dict_setitem [of d k v] by force
  with Cons show ?case
    by (cases p) auto
qed

lemma distinct_dict_update: "distinct (map fst rv) \<Longrightarrow> distinct (map fst (dict_update rv d))"
  by (induction d arbitrary: rv) (auto simp: distinct_dict_setitem)

lemma map_of_rev_distinct: "distinct (map fst d) \<Longrightarrow> map_of (rev d) = map_of d"
proof (rule ext)
  fix k
  assume d: "distinct (map fst d)"
  then have dr: "distinct (map fst (rev d))"
    by (simp add: rev_map [symmetric])
  show "map_of (rev d) k = map_of d k"
  proof (cases "map_of d k")
    case None
    then show ?thesis by (simp add: map_of_rev_None)
  next
    case (Some v)
    then have "(k, v) \<in> set (rev d)"
      by (auto dest: map_of_SomeD)
    with dr have "map_of (rev d) k = Some v"
      by simp
    with Some show ?thesis by simp
  qed
qed

lemma map_of_unique_value:
  assumes "(k, v) \<in> set ps" and "\<And>v'. (k, v') \<in> set ps \<Longrightarrow> v' = v"
  shows "map_of ps k = Some v"
proof -
  from weak_map_of_SomeI [OF assms(1)] obtain x where x: "map_of ps k = Some x"
    by blast
  from map_of_SomeD [OF x] assms(2) have "x = v"
    by blast
  with x show ?thesis by simp
qed

lemma map_of_graph: "map_of (map (\<lambda>t. (t, f t)) ks) t = (if t \<in> set ks then Some (f t) else None)"
  by (induction ks) auto

lemma resources_sound:
  "(t, v) \<in> set (resources e) \<Longrightarrow> t \<in> set (subterms e) \<and> (\<exists>n s tok. t = Symbol n s tok (Some v))"
proof (induction e)
  case (Symbol n s tok r)
  then show ?case by (cases r) auto
next
  case (Op k n s ins)
  from Op.prems set_merge_into [of "[]" "map resources ins"]
  obtain i where i: "i \<in> set ins" and m: "(t, v) \<in> set (resources i)"
    by (auto simp: merge_def)
  from Op.IH [OF i m] i show ?case
    by auto
qed

lemma resources_keys: "fst ` set (resources e) = {t \<in> set (subterms e). is_resource t}"
proof (induction e)
  case (Symbol n s tok r)
  show ?case by (cases r) auto
next
  case (Op k n s ins)
  have "fst ` set (resources (Op k n s ins)) = (\<Union>i \<in> set ins. fst ` set (resources i))"
    by (simp add: merge_def keys_merge_into)
  also have "\<dots> = (\<Union>i \<in> set ins. {t \<in> set (subterms i). is_resource t})"
    using Op.IH by simp
  also have "\<dots> = {t \<in> set (subterms (Op k n s ins)). is_resource t}"
    by auto
  finally show ?case .
qed

lemma set_leaves: "set (leaves e) = {t \<in> set (subterms e). is_Symbol t}"
proof (induction e)
  case (Symbol n s tok r)
  show ?case by auto
next
  case (Op k n s ins)
  have "set (leaves (Op k n s ins)) = (\<Union>i \<in> set ins. set (leaves i))"
    by (simp add: set_unique)
  also have "\<dots> = (\<Union>i \<in> set ins. {t \<in> set (subterms i). is_Symbol t})"
    using Op.IH by simp
  also have "\<dots> = {t \<in> set (subterms (Op k n s ins)). is_Symbol t}"
    by auto
  finally show ?case .
qed

lemma subs_replaces:
  assumes "\<And>t. map_of D t = (if t \<in> K then Some (plain_symbol t) else None)"
    and "\<And>t. t \<in> set (subterms e) \<Longrightarrow> (t \<in> K) = is_resource t"
  shows "subs e D = replace_resources_spec e"
  using assms(2)
proof (induction e)
  case (Symbol n s tok r)
  from Symbol [of "Symbol n s tok r"] show ?case
    by (cases r) (simp_all add: assms(1) plain_symbol_def)
next
  case (Op k n s ins)
  from Op.prems [of "Op k n s ins"] have nk: "Op k n s ins \<notin> K"
    by simp
  have "\<And>i. i \<in> set ins \<Longrightarrow> subs i D = replace_resources_spec i"
  proof -
    fix i
    assume i: "i \<in> set ins"
    show "subs i D = replace_resources_spec i"
    proof (rule Op.IH [OF i])
      fix t
      assume "t \<in> set (subterms i)"
      with i have "t \<in> set (subterms (Op k n s ins))"
        by auto
      then show "(t \<in> K) = is_resource t"
        by (rule Op.prems)
    qed
  qed
  with nk show ?case
    by (simp add: assms(1))
qed

lemma symbol_dict_lookup:
  "map_of (dict_of (map (\<lambda>t. (t, Symbol (expr_name t) (expr_dshape t) None None)) ks)) t
   = (if t \<in> set ks then Some (plain_symbol t) else None)"
proof -
  have "map_of (rev (map (\<lambda>t. (t, Symbol (expr_name t) (expr_dshape t) None None)) ks)) t
      = map_of (map (\<lambda>t. (t, plain_symbol t)) (rev ks)) t"
    by (simp add: rev_map plain_symbol_def)
  then show ?thesis
    by (simp add: map_of_dict_of map_of_graph)
qed

lemma swap_resources_unfold:
  "swap_resources_into_scope expr sc =
     (subs expr (dict_of (map (\<lambda>t. (t, Symbol (expr_name t) (expr_dshape t) None None))
                           (map fst (resources expr)))),
      merge [dict_of (map (\<lambda>(k, v). (VExpr (plain_symbol k), v)) (resources expr)), sc])"
proof -
  have "map (\<lambda>(k, v). (VExpr (the (map_of (dict_of (map (\<lambda>t. (t, Symbol (expr_name t) (expr_dshape t) None None))
                           (map fst (resources expr)))) k)), v)) (resources expr)
      = map (\<lambda>(k, v). (VExpr (plain_symbol k), v)) (resources expr)"
  proof (rule map_cong [OF refl])
    fix p
    assume p: "p \<in> set (resources expr)"
    obtain k v where kv: "p = (k, v)" by (cases p)
    from p kv have "k \<in> set (map fst (resources expr))"
      by force
    with symbol_dict_lookup [of "map fst (resources expr)" k]
    have "the (map_of (dict_of (map (\<lambda>t. (t, Symbol (expr_name t) (expr_dshape t) None None))
                           (map fst (resources expr)))) k) = plain_symbol k"
      by (simp del: map_map)
    then show "(case p of (k, v) \<Rightarrow> (VExpr (the (map_of (dict_of (map (\<lambda>t. (t, Symbol (expr_name t) (expr_dshape t) None None))
                           (map fst (resources expr)))) k)), v))
        = (case p of (k, v) \<Rightarrow> (VExpr (plain_symbol k), v))"
      by (simp only: kv prod.case)
  qed
  then show ?thesis
    unfolding swap_resources_into_scope_def Let_def by (simp only:)
qed

lemma map_of_merge2: "map_of (merge [a, b]) = map_of (rev a) ++ map_of (rev b)"
  by (simp add: merge_def map_of_dict_update)

lemma distinct_dict_of: "distinct (map fst (dict_of pairs))"
  by (simp add: dict_of_def distinct_dict_update)

text \<open>
  C8, as stated, fails when two leaves with the same name and shape carry
  different data: both are replaced by the same plain symbol, the derived scope
  has one binding for it, and one of the two leaves is not bound to its data.
  Here the leaf carrying \<open>[1, 2, 3]\<close> is replaced by \<open>t\<close>, and \<open>t\<close> is bound to
  \<open>[4, 5, 6]\<close>.
\<close>

theorem swap_resources_counterexample:
  "ex_t1 \<in> set (leaves ex_add)
   \<and> ex_t1 = Symbol ''t'' ''3 * int'' None (Some (VList [VInt 1, VInt 2, VInt 3]))
   \<and> fst (swap_resources_into_scope ex_add [])
       = Op ''Add'' ''t'' ''3 * int'' [Symbol ''t'' ''3 * int'' None None, Symbol ''t'' ''3 * int'' None None]
   \<and> map_of (snd (swap_resources_into_scope ex_add [])) (VExpr (Symbol ''t'' ''3 * int'' None None))
       \<noteq> Some (VList [VInt 1, VInt 2, VInt 3])"
  by (simp add: ex_add_def ex_t1_def ex_t2_def eval_defs)

text \<open>
  C8, amended: for every expression and every caller scope (a dictionary), the
  Resource Binder replaces each leaf carrying attached data with a plain symbol
  (no token, no data) of the same name and shape; every binding of the caller
  is kept, so the caller wins on a collision; and the plain symbol of a
  data-carrying leaf is bound to that leaf's data provided the caller does not
  bind the symbol and every data-carrying leaf of the same name and shape carries
  the same data. A leaf with data \<open>[1, 2, 3]\<close> under name \<open>t\<close> yields an
  expression over the plain symbol \<open>t\<close> and the scope \<open>{t: [1, 2, 3]}\<close>.
\<close>

theorem swap_resources_binds:
  assumes "distinct (map fst sc)"
  shows "fst (swap_resources_into_scope expr sc) = replace_resources_spec expr
     \<and> (\<forall>k v. map_of sc k = Some v \<longrightarrow> map_of (snd (swap_resources_into_scope expr sc)) k = Some v)
     \<and> (Symbol n s tok (Some d) \<in> set (leaves expr)
          \<and> map_of sc (VExpr (Symbol n s None None)) = None
          \<and> (\<forall>tok' d'. Symbol n s tok' (Some d') \<in> set (leaves expr) \<longrightarrow> d' = d)
        \<longrightarrow> map_of (snd (swap_resources_into_scope expr sc)) (VExpr (Symbol n s None None)) = Some d)
     \<and> swap_resources_into_scope ex_head []
        = (Op ''Head'' ''t'' ''2 * int'' [Symbol ''t'' ''3 * int'' None None],
           [(VExpr (Symbol ''t'' ''3 * int'' None None), VList [VInt 1, VInt 2, VInt 3])])"
proof -
  let ?pairs = "map (\<lambda>(k, v). (VExpr (plain_symbol k), v)) (resources expr)"
  have replaced: "fst (swap_resources_into_scope expr sc) = replace_resources_spec expr"
  proof -
    have "subs expr (dict_of (map (\<lambda>t. (t, Symbol (expr_name t) (expr_dshape t) None None))
                           (map fst (resources expr)))) = replace_resources_spec expr"
    proof (rule subs_replaces [where K = "set (map fst (resources expr))"])
      fix t
      show "map_of (dict_of (map (\<lambda>t. (t, Symbol (expr_name t) (expr_dshape t) None None))
                           (map fst (resources expr)))) t
          = (if t \<in> set (map fst (resources expr)) then Some (plain_symbol t) else None)"
        by (rule symbol_dict_lookup)
    next
      fix t
      assume "t \<in> set (subterms expr)"
      with resources_keys [of expr] show "(t \<in> set (map fst (resources expr))) = is_resource t"
        by auto
    qed
    then show ?thesis
      by (simp add: swap_resources_unfold)
  qed
  have scope: "map_of (snd (swap_resources_into_scope expr sc))
      = map_of (rev ?pairs) ++ map_of sc"
    by (simp add: swap_resources_unfold map_of_merge2 map_of_rev_distinct [OF assms]
        map_of_rev_distinct [OF distinct_dict_of] map_of_dict_of)
  have caller: "\<forall>k v. map_of sc k = Some v
      \<longrightarrow> map_of (snd (swap_resources_into_scope expr sc)) k = Some v"
    by (simp add: scope)
  have bound: "Symbol n s tok (Some d) \<in> set (leaves expr)
          \<and> map_of sc (VExpr (Symbol n s None None)) = None
          \<and> (\<forall>tok' d'. Symbol n s tok' (Some d') \<in> set (leaves expr) \<longrightarrow> d' = d)
        \<longrightarrow> map_of (snd (swap_resources_into_scope expr sc)) (VExpr (Symbol n s None None)) = Some d"
  proof (intro impI, elim conjE)
    assume leaf: "Symbol n s tok (Some d) \<in> set (leaves expr)"
      and free: "map_of sc (VExpr (Symbol n s None None)) = None"
      and same: "\<forall>tok' d'. Symbol n s tok' (Some d') \<in> set (leaves expr) \<longrightarrow> d' = d"
    from leaf have "Symbol n s tok (Some d) \<in> {t \<in> set (subterms expr). is_resource t}"
      by (simp add: set_leaves)
    then have "Symbol n s tok (Some d) \<in> fst ` set (resources expr)"
      by (simp only: resources_keys)
    then obtain v where v: "(Symbol n s tok (Some d), v) \<in> set (resources expr)"
      by auto
    from resources_sound [OF v] have "v = d"
      by auto
    with v have "(VExpr (plain_symbol (Symbol n s tok (Some d))), d) \<in> set (rev ?pairs)"
      by force
    then have mem: "(VExpr (Symbol n s None None), d) \<in> set (rev ?pairs)"
      by (simp add: plain_symbol_def)
    have uniq: "\<And>v'. (VExpr (Symbol n s None None), v') \<in> set (rev ?pairs) \<Longrightarrow> v' = d"
    proof -
      fix v'
      assume "(VExpr (Symbol n s None None), v') \<in> set (rev ?pairs)"
      then obtain k' where k': "(k', v') \<in> set (resources expr)"
        and p: "plain_symbol k' = Symbol n s None None"
        by auto
      from resources_sound [OF k'] obtain n' s' tok' where
        sub: "k' \<in> set (subterms expr)" and form: "k' = Symbol n' s' tok' (Some v')"
        by blast
      from p form have "n' = n" and "s' = s"
        by (simp_all add: plain_symbol_def)
      with sub form have "Symbol n s tok' (Some v') \<in> set (leaves expr)"
        by (simp add: set_leaves)
      with same show "v' = d"
        by blast
    qed
    from map_of_unique_value [OF mem uniq] free
    show "map_of (snd (swap_resources_into_scope expr sc)) (VExpr (Symbol n s None None)) = Some d"
      by (simp add: scope map_add_def)
  qed
  have example: "swap_resources_into_scope ex_head []
        = (Op ''Head'' ''t'' ''2 * int'' [Symbol ''t'' ''3 * int'' None None],
           [(VExpr (Symbol ''t'' ''3 * int'' None None), VList [VInt 1, VInt 2, VInt 3])])"
    by (simp add: ex_head_def ex_t1_def eval_defs)
  from replaced caller bound example show ?thesis
    by blast
qed

theorem swap_resources_binds_witness:
  "distinct (map fst [(VExpr ex_x, VInt 7)])
   \<and> map_of [(VExpr ex_x, VInt 7)] (VExpr ex_x) = Some (VInt 7)
   \<and> Symbol ''t'' ''3 * int'' None (Some (VList [VInt 1, VInt 2, VInt 3])) \<in> set (leaves ex_head)
   \<and> map_of [(VExpr ex_x, VInt 7)] (VExpr (Symbol ''t'' ''3 * int'' None None)) = None
   \<and> fst (swap_resources_into_scope ex_head [(VExpr ex_x, VInt 7)])
       = Op ''Head'' ''t'' ''2 * int'' [Symbol ''t'' ''3 * int'' None None]
   \<and> map_of (snd (swap_resources_into_scope ex_head [(VExpr ex_x, VInt 7)])) (VExpr ex_x)
       = Some (VInt 7)
   \<and> map_of (snd (swap_resources_into_scope ex_head [(VExpr ex_x, VInt 7)]))
         (VExpr (Symbol ''t'' ''3 * int'' None None))
       = Some (VList [VInt 1, VInt 2, VInt 3])"
proof -
  have h1: "distinct (map fst [(VExpr ex_x, VInt 7)])"
    by simp
  have h2: "map_of [(VExpr ex_x, VInt 7)] (VExpr ex_x) = Some (VInt 7)"
    by simp
  have h3: "Symbol ''t'' ''3 * int'' None (Some (VList [VInt 1, VInt 2, VInt 3])) \<in> set (leaves ex_head)"
    by (simp add: ex_head_def ex_t1_def unique_def)
  have h4: "map_of [(VExpr ex_x, VInt 7)] (VExpr (Symbol ''t'' ''3 * int'' None None)) = None"
    by (simp add: ex_x_def)
  have h5: "\<forall>tok' d'. Symbol ''t'' ''3 * int'' tok' (Some d') \<in> set (leaves ex_head)
      \<longrightarrow> d' = VList [VInt 1, VInt 2, VInt 3]"
    by (simp add: ex_head_def ex_t1_def unique_def)
  have r: "replace_resources_spec ex_head
      = Op ''Head'' ''t'' ''2 * int'' [Symbol ''t'' ''3 * int'' None None]"
    by (simp add: ex_head_def ex_t1_def)
  note T = swap_resources_binds [OF h1, of ex_head "''t''" "''3 * int''" None
      "VList [VInt 1, VInt 2, VInt 3]"]
  from T have a: "fst (swap_resources_into_scope ex_head [(VExpr ex_x, VInt 7)])
      = replace_resources_spec ex_head"
    by (rule conjunct1)
  from T h2 have b: "map_of (snd (swap_resources_into_scope ex_head [(VExpr ex_x, VInt 7)]))
      (VExpr ex_x) = Some (VInt 7)"
    by blast
  from T h3 h4 h5 have c: "map_of (snd (swap_resources_into_scope ex_head [(VExpr ex_x, VInt 7)]))
         (VExpr (Symbol ''t'' ''3 * int'' None None))
       = Some (VList [VInt 1, VInt 2, VInt 3])"
    by blast
  from h1 h2 h3 h4 a [unfolded r] b c show ?thesis
    by (intro conjI)
qed

section \<open>Unsupported operations\<close>

lemma driver_after_unsupported:
  assumes "map_of sc (VExpr expr) = None"
    and "compute_down_h rt expr (map (\<lambda>leaf. dict_get sc (VExpr leaf)) (leaves expr)) kw
          = Inl NotImplementedError"
  shows "top_then_bottom_then_top_again_etc (Suc n) rt kw expr sc st =
       (case bottom_up_until_type_break rt expr sc st of
          Inl e \<Rightarrow> Some (Inl e)
        | Inr ((new_expr, new_scope), st') \<Rightarrow>
            (case loop_pre_compute rt kw new_expr new_scope of
               Inl e \<Rightarrow> Some (Inl e)
             | Inr new_scope2 \<Rightarrow>
                 (case loop_optimize rt kw new_expr new_scope2 of
                    Inl e \<Rightarrow> Some (Inl e)
                  | Inr new_expr2 \<Rightarrow>
                      top_then_bottom_then_top_again_etc n rt no_kwargs new_expr2 new_scope2 st')))"
  using assms by (simp add: Let_def)

text \<open>
  C4: \<^verbatim>\<open>NotImplementedError\<close> from a dispatched operation means "try the
  next strategy". When \<^verbatim>\<open>compute_down\<close> raises it for the expression and
  its leaf values, the driver goes on with the bottom-up partial evaluator and the
  error is not the result. When the optimizer raises it inside the driver, the
  reduced expression is kept and the driver recurses on it; when it raises it in
  the entry point, the bound expression is kept and handed to the driver.
\<close>

theorem unsupported_is_next_strategy:
  "(map_of sc (VExpr expr) = None
      \<and> compute_down_h rt expr (map (\<lambda>leaf. dict_get sc (VExpr leaf)) (leaves expr)) kw
          = Inl NotImplementedError
    \<longrightarrow> top_then_bottom_then_top_again_etc (Suc n) rt kw expr sc st =
       (case bottom_up_until_type_break rt expr sc st of
          Inl e \<Rightarrow> Some (Inl e)
        | Inr ((new_expr, new_scope), st') \<Rightarrow>
            (case loop_pre_compute rt kw new_expr new_scope of
               Inl e \<Rightarrow> Some (Inl e)
             | Inr new_scope2 \<Rightarrow>
                 (case loop_optimize rt kw new_expr new_scope2 of
                    Inl e \<Rightarrow> Some (Inl e)
                  | Inr new_expr2 \<Rightarrow>
                      top_then_bottom_then_top_again_etc n rt no_kwargs new_expr2 new_scope2 st'))))
   \<and> (map_of sc (VExpr expr) = None
      \<and> compute_down_h rt expr (map (\<lambda>leaf. dict_get sc (VExpr leaf)) (leaves expr)) kw
          = Inl NotImplementedError
      \<and> bottom_up_until_type_break rt expr sc st = Inr ((ne, ns), st1)
      \<and> loop_pre_compute rt kw ne ns = Inr ns2
      \<and> kwarg_get (kw_optimize kw) (optimize_h rt) = Some f
      \<and> dict_getitems ns2 (map VExpr (leaves ne)) = Inr vals
      \<and> f ne vals = Inl NotImplementedError
    \<longrightarrow> loop_optimize rt kw ne ns2 = Inr ne
        \<and> top_then_bottom_then_top_again_etc (Suc n) rt kw expr sc st
            = top_then_bottom_then_top_again_etc n rt no_kwargs ne ns2 st1)
   \<and> (swap_resources_into_scope expr0 d = (expr2, d2)
      \<and> entry_pre_compute rt kw d2 = Inr d3
      \<and> kwarg_get (kw_optimize kw) (optimize_h rt) = Some g
      \<and> g expr2 (map snd (filter (\<lambda>(e, v). expr_contains expr2 e) d3)) = Inl NotImplementedError
    \<longrightarrow> entry_optimize rt kw expr2 d3 = Inr expr2
        \<and> compute_Expr_dict m rt kw expr0 d st0 =
            (case top_then_bottom_then_top_again_etc m rt kw expr2 d3 (reset_leaves st0) of
               None \<Rightarrow> None
             | Some (Inl e) \<Rightarrow> Some (Inl e)
             | Some (Inr result) \<Rightarrow>
                 (case post_compute_h rt expr2 result d3 of
                    Inl e \<Rightarrow> Some (Inl (Raised e))
                  | Inr v \<Rightarrow> Some (Inr v))))"
proof (intro conjI impI)
  assume "map_of sc (VExpr expr) = None
      \<and> compute_down_h rt expr (map (\<lambda>leaf. dict_get sc (VExpr leaf)) (leaves expr)) kw
          = Inl NotImplementedError"
  then show "top_then_bottom_then_top_again_etc (Suc n) rt kw expr sc st =
       (case bottom_up_until_type_break rt expr sc st of
          Inl e \<Rightarrow> Some (Inl e)
        | Inr ((new_expr, new_scope), st') \<Rightarrow>
            (case loop_pre_compute rt kw new_expr new_scope of
               Inl e \<Rightarrow> Some (Inl e)
             | Inr new_scope2 \<Rightarrow>
                 (case loop_optimize rt kw new_expr new_scope2 of
                    Inl e \<Rightarrow> Some (Inl e)
                  | Inr new_expr2 \<Rightarrow>
                      top_then_bottom_then_top_again_etc n rt no_kwargs new_expr2 new_scope2 st')))"
    by (simp add: driver_after_unsupported)
next
  assume a: "map_of sc (VExpr expr) = None
      \<and> compute_down_h rt expr (map (\<lambda>leaf. dict_get sc (VExpr leaf)) (leaves expr)) kw
          = Inl NotImplementedError
      \<and> bottom_up_until_type_break rt expr sc st = Inr ((ne, ns), st1)
      \<and> loop_pre_compute rt kw ne ns = Inr ns2
      \<and> kwarg_get (kw_optimize kw) (optimize_h rt) = Some f
      \<and> dict_getitems ns2 (map VExpr (leaves ne)) = Inr vals
      \<and> f ne vals = Inl NotImplementedError"
  then show lo: "loop_optimize rt kw ne ns2 = Inr ne"
    by (simp add: loop_optimize_def try_optimize_def)
  from a have "top_then_bottom_then_top_again_etc (Suc n) rt kw expr sc st =
       (case bottom_up_until_type_break rt expr sc st of
          Inl e \<Rightarrow> Some (Inl e)
        | Inr ((new_expr, new_scope), st') \<Rightarrow>
            (case loop_pre_compute rt kw new_expr new_scope of
               Inl e \<Rightarrow> Some (Inl e)
             | Inr new_scope2 \<Rightarrow>
                 (case loop_optimize rt kw new_expr new_scope2 of
                    Inl e \<Rightarrow> Some (Inl e)
                  | Inr new_expr2 \<Rightarrow>
                      top_then_bottom_then_top_again_etc n rt no_kwargs new_expr2 new_scope2 st')))"
    by (simp add: driver_after_unsupported)
  with a lo show "top_then_bottom_then_top_again_etc (Suc n) rt kw expr sc st
            = top_then_bottom_then_top_again_etc n rt no_kwargs ne ns2 st1"
    by simp
next
  assume b: "swap_resources_into_scope expr0 d = (expr2, d2)
      \<and> entry_pre_compute rt kw d2 = Inr d3
      \<and> kwarg_get (kw_optimize kw) (optimize_h rt) = Some g
      \<and> g expr2 (map snd (filter (\<lambda>(e, v). expr_contains expr2 e) d3)) = Inl NotImplementedError"
  then show eo: "entry_optimize rt kw expr2 d3 = Inr expr2"
    by (simp add: entry_optimize_def try_optimize_def)
  from b eo show "compute_Expr_dict m rt kw expr0 d st0 =
            (case top_then_bottom_then_top_again_etc m rt kw expr2 d3 (reset_leaves st0) of
               None \<Rightarrow> None
             | Some (Inl e) \<Rightarrow> Some (Inl e)
             | Some (Inr result) \<Rightarrow>
                 (case post_compute_h rt expr2 result d3 of
                    Inl e \<Rightarrow> Some (Inl (Raised e))
                  | Inr v \<Rightarrow> Some (Inr v)))"
    by (simp add: compute_Expr_dict_def)
qed

theorem unsupported_is_next_strategy_witness:
  "compute_down_h ex_registry_unsupported ex_distinct
      (map (\<lambda>leaf. dict_get [(VExpr ex_x, VInt 5)] (VExpr leaf)) (leaves ex_distinct)) no_kwargs
     = Inl NotImplementedError
   \<and> optimize_h ex_registry_unsupported (Symbol ''y'' ''int'' None None) [VInt 5]
     = Inl NotImplementedError
   \<and> optimize_h ex_registry_unsupported ex_distinct [VInt 5] = Inl NotImplementedError
   \<and> top_then_bottom_then_top_again_etc (Suc (Suc 0)) ex_registry_unsupported no_kwargs
        ex_distinct [(VExpr ex_x, VInt 5)] empty_leaves = Some (Inr (VInt 5))
   \<and> compute_Expr_dict (Suc (Suc 0)) ex_registry_unsupported no_kwargs
        ex_distinct [(VExpr ex_x, VInt 5)] empty_leaves = Some (Inr (VInt 5))"
proof -
  let ?R = ex_registry_unsupported
  let ?sc = "[(VExpr ex_x, VInt 5)]"
  let ?y = "Symbol ''y'' ''int'' None None :: pyval expr"
  let ?st1 = "\<lparr>leaf_cache = [(ex_x, ex_x), (ex_distinct, ?y)],
               used_tokens = [(''y'', None), (''x'', None)]\<rparr>"
  let ?f = "\<lambda>(e :: pyval expr) (vals :: pyval list). (Inl NotImplementedError :: handler_error + pyval expr)"
  have h1: "map_of ?sc (VExpr ex_distinct) = None"
    by (simp add: ex_registry_def ex_compute_up_def ex_distinct_def ex_x_def)
  have h2: "compute_down_h ?R ex_distinct
      (map (\<lambda>leaf. dict_get ?sc (VExpr leaf)) (leaves ex_distinct)) no_kwargs
     = Inl NotImplementedError"
    by (simp add: ex_registry_unsupported_def ex_registry_def ex_compute_up_def ex_distinct_def ex_x_def eval_defs)
  have h3: "bottom_up_until_type_break ?R ex_distinct ?sc empty_leaves
     = Inr ((?y, [(VExpr ?y, VInt 5)]), ?st1)"
    by (simp add: ex_registry_unsupported_def ex_registry_def ex_compute_up_def ex_distinct_def ex_x_def eval_defs)
  have h4: "loop_pre_compute ?R no_kwargs ?y [(VExpr ?y, VInt 5)] = Inr [(VExpr ?y, VInt 5)]"
    by (simp add: ex_registry_unsupported_def ex_registry_def ex_compute_up_def ex_distinct_def ex_x_def eval_defs)
  have h5: "kwarg_get (kw_optimize no_kwargs) (optimize_h ?R) = Some ?f"
    by (simp add: ex_registry_unsupported_def no_kwargs_def)
  have h6: "dict_getitems [(VExpr ?y, VInt 5)] (map VExpr (leaves ?y)) = Inr [VInt 5]"
    by (simp add: dict_getitem_def)
  have h7: "?f ?y [VInt 5] = Inl NotImplementedError"
    by simp
  have g1: "swap_resources_into_scope ex_distinct ?sc = (ex_distinct, ?sc)"
    by (simp add: ex_registry_def ex_compute_up_def ex_distinct_def ex_x_def eval_defs)
  have g2: "entry_pre_compute ?R no_kwargs ?sc = Inr ?sc"
    by (simp add: ex_registry_unsupported_def ex_registry_def ex_compute_up_def ex_distinct_def ex_x_def eval_defs)
  have g3: "?f ex_distinct (map snd (filter (\<lambda>(e, v). expr_contains ex_distinct e) ?sc))
      = Inl NotImplementedError"
    by simp
  note T = unsupported_is_next_strategy [where sc = ?sc and expr = ex_distinct and rt = ?R
      and kw = no_kwargs and n = "Suc 0" and st = empty_leaves and ne = ?y
      and ns = "[(VExpr ?y, VInt 5)]" and ?st1.0 = ?st1 and ?ns2.0 = "[(VExpr ?y, VInt 5)]"
      and f = ?f and vals = "[VInt 5]" and ?expr0.0 = ex_distinct and d = ?sc
      and ?expr2.0 = ex_distinct and ?d2.0 = ?sc and ?d3.0 = ?sc and g = ?f
      and m = "Suc (Suc 0)" and ?st0.0 = empty_leaves]
  from T h1 h2 h3 h4 h5 h6 h7
  have step: "top_then_bottom_then_top_again_etc (Suc (Suc 0)) ?R no_kwargs ex_distinct ?sc empty_leaves
      = top_then_bottom_then_top_again_etc (Suc 0) ?R no_kwargs ?y [(VExpr ?y, VInt 5)] ?st1"
    by blast
  have last: "top_then_bottom_then_top_again_etc (Suc 0) ?R no_kwargs ?y [(VExpr ?y, VInt 5)] ?st1
      = Some (Inr (VInt 5))"
    by simp
  from step last have drv: "top_then_bottom_then_top_again_etc (Suc (Suc 0)) ?R no_kwargs
      ex_distinct ?sc empty_leaves = Some (Inr (VInt 5))"
    by (simp only:)
  from T g1 g2 h5 g3
  have "compute_Expr_dict (Suc (Suc 0)) ?R no_kwargs ex_distinct ?sc empty_leaves =
            (case top_then_bottom_then_top_again_etc (Suc (Suc 0)) ?R no_kwargs ex_distinct ?sc
                    (reset_leaves empty_leaves) of
               None \<Rightarrow> None
             | Some (Inl e) \<Rightarrow> Some (Inl e)
             | Some (Inr result) \<Rightarrow>
                 (case post_compute_h ?R ex_distinct result ?sc of
                    Inl e \<Rightarrow> Some (Inl (Raised e))
                  | Inr v \<Rightarrow> Some (Inr v)))"
    by blast
  moreover have "reset_leaves empty_leaves = empty_leaves"
    by (simp add: reset_leaves_def empty_leaves_def)
  moreover have "post_compute_h ?R ex_distinct (VInt 5) ?sc = Inr (VInt 5)"
    by (simp add: ex_registry_unsupported_def ex_registry_def ex_compute_up_def ex_distinct_def ex_x_def eval_defs)
  ultimately have ent: "compute_Expr_dict (Suc (Suc 0)) ?R no_kwargs ex_distinct ?sc empty_leaves
      = Some (Inr (VInt 5))"
    by (simp only: drv option.case sum.case)
  have o1: "optimize_h ?R ?y [VInt 5] = Inl NotImplementedError"
    and o2: "optimize_h ?R ex_distinct [VInt 5] = Inl NotImplementedError"
    by (simp_all add: ex_registry_unsupported_def)
  from h2 o1 o2 drv ent show ?thesis
    by (intro conjI)
qed

section \<open>Expressions without free symbols as scope keys\<close>




end
